theory Spec2Isabelle
  imports Main "HOL-Library.Signed_Division"
begin

section \<open>Duration codec (js/app.js: msToTime, timeToMs)\<close>

text \<open>
  JavaScript numbers are IEEE doubles. The codec is modelled over \<open>int\<close>: on integers
  of magnitude below \<open>2 ^ 53\<close> the double operations the two functions use (\<open>+\<close>,
  \<open>*\<close>, \<open>/\<close> followed by \<open>Math.floor\<close> or \<open>Math.round\<close>, \<open>%\<close>) give exactly the
  integer results written here. Where the value of the program is not such an integer,
  or is not known to be one, the model says so (\<open>Unmodelled\<close>, \<open>None\<close>) and states no
  value. A string is the list of the bytes of its UTF-8 form.
\<close>

definition is_digit :: "char \<Rightarrow> bool" where
  "is_digit c = (c \<in> set ''0123456789'')"

text \<open>The value of a digit is its position in \<open>0123456789\<close>.\<close>

definition digit_val :: "char \<Rightarrow> nat" where
  "digit_val c = length (takeWhile (\<lambda>d. d \<noteq> c) ''0123456789'')"

definition digit_char :: "nat \<Rightarrow> char" where
  "digit_char n = ''0123456789'' ! n"

text \<open>The value of a string of decimal digits, most significant digit first.\<close>

definition dec_val :: "string \<Rightarrow> nat" where
  "dec_val s = foldl (\<lambda>a c. 10 * a + digit_val c) 0 s"

subsection \<open>The builtin \<open>Number\<close> applied to a string\<close>

text \<open>
  \<open>Number\<close> skips white space and line terminators at both ends of the string. What is
  left converts to 0 when it is empty, to a number when it is a numeric literal of the
  grammar below, and to \<open>NaN\<close> otherwise. These are the white space and line terminator
  characters U+0009 to U+000D, U+0020, U+00A0, U+1680, U+2000 to U+200A, U+2028, U+2029,
  U+202F, U+205F, U+3000 and U+FEFF.
\<close>

definition white_space :: "string list" where
  "white_space =
     [[CHR 0x09], [CHR 0x0A], [CHR 0x0B], [CHR 0x0C], [CHR 0x0D], [CHR 0x20],
      [CHR 0xC2, CHR 0xA0], [CHR 0xE1, CHR 0x9A, CHR 0x80],
      [CHR 0xE2, CHR 0x80, CHR 0x80], [CHR 0xE2, CHR 0x80, CHR 0x81],
      [CHR 0xE2, CHR 0x80, CHR 0x82], [CHR 0xE2, CHR 0x80, CHR 0x83],
      [CHR 0xE2, CHR 0x80, CHR 0x84], [CHR 0xE2, CHR 0x80, CHR 0x85],
      [CHR 0xE2, CHR 0x80, CHR 0x86], [CHR 0xE2, CHR 0x80, CHR 0x87],
      [CHR 0xE2, CHR 0x80, CHR 0x88], [CHR 0xE2, CHR 0x80, CHR 0x89],
      [CHR 0xE2, CHR 0x80, CHR 0x8A], [CHR 0xE2, CHR 0x80, CHR 0xA8],
      [CHR 0xE2, CHR 0x80, CHR 0xA9], [CHR 0xE2, CHR 0x80, CHR 0xAF],
      [CHR 0xE2, CHR 0x81, CHR 0x9F], [CHR 0xE3, CHR 0x80, CHR 0x80],
      [CHR 0xEF, CHR 0xBB, CHR 0xBF]]"

text \<open>The number of bytes of the character of \<open>ws\<close> the string begins with, 0 if it
  begins with none.\<close>

definition ws_length :: "string list \<Rightarrow> string \<Rightarrow> nat" where
  "ws_length ws s =
     (if take 1 s \<in> set (filter (\<lambda>w. length w = 1) ws) then 1
      else if take 2 s \<in> set (filter (\<lambda>w. length w = 2) ws) then 2
      else if take 3 s \<in> set (filter (\<lambda>w. length w = 3) ws) then 3
      else 0)"

function strip_start :: "string list \<Rightarrow> string \<Rightarrow> string" where
  "strip_start ws s =
     (if ws_length ws s = 0 then s else strip_start ws (drop (ws_length ws s) s))"
  by pat_completeness auto
termination
  by (relation "measure (\<lambda>(ws, s). length s)")
    (auto simp add: ws_length_def split: if_splits)

declare strip_start.simps [simp del]

definition trim :: "string \<Rightarrow> string" where
  "trim s = rev (strip_start (map rev white_space) (rev (strip_start white_space s)))"

text \<open>
  The numeric literals of a string: a decimal literal with an optional sign, that is
  \<open>Infinity\<close>, digits with an optional fraction, or a fraction that begins with the dot,
  each of the last two with an optional exponent; or an unsigned binary, octal or
  hexadecimal integer with its prefix.
\<close>

definition is_exponent :: "string \<Rightarrow> bool" where
  "is_exponent e =
     (case e of
        [] \<Rightarrow> True
      | c # r \<Rightarrow>
          (c = CHR ''e'' \<or> c = CHR ''E'') \<and>
          (let ds = (case r of
                       [] \<Rightarrow> []
                     | sg # r' \<Rightarrow> if sg = CHR ''+'' \<or> sg = CHR ''-'' then r' else r)
           in ds \<noteq> [] \<and> list_all is_digit ds))"

definition unsigned_decimal :: "string \<Rightarrow> bool" where
  "unsigned_decimal u =
     (u = ''Infinity'' \<or>
      (let ip = takeWhile is_digit u; r = dropWhile is_digit u
       in case r of
            [] \<Rightarrow> ip \<noteq> []
          | c # r' \<Rightarrow>
              if c = CHR ''.''
              then (ip \<noteq> [] \<or> takeWhile is_digit r' \<noteq> []) \<and>
                   is_exponent (dropWhile is_digit r')
              else ip \<noteq> [] \<and> is_exponent r))"

definition non_decimal :: "string \<Rightarrow> bool" where
  "non_decimal t =
     (case t of
        z # x # ds \<Rightarrow>
          z = CHR ''0'' \<and> ds \<noteq> [] \<and>
          ((x = CHR ''x'' \<or> x = CHR ''X'') \<and>
             list_all (\<lambda>c. c \<in> set ''0123456789abcdefABCDEF'') ds \<or>
           (x = CHR ''o'' \<or> x = CHR ''O'') \<and> list_all (\<lambda>c. c \<in> set ''01234567'') ds \<or>
           (x = CHR ''b'' \<or> x = CHR ''B'') \<and> list_all (\<lambda>c. c \<in> set ''01'') ds)
      | _ \<Rightarrow> False)"

definition numeric_literal :: "string \<Rightarrow> bool" where
  "numeric_literal t =
     (non_decimal t \<or>
      (case t of
         [] \<Rightarrow> False
       | c # r \<Rightarrow>
           if c = CHR ''+'' \<or> c = CHR ''-'' then unsigned_decimal r else unsigned_decimal t))"

text \<open>The strings \<open>Number\<close> does not convert to \<open>NaN\<close>.\<close>

definition js_numeric :: "string \<Rightarrow> bool" where
  "js_numeric s = (trim s = [] \<or> numeric_literal (trim s))"

text \<open>
  The result of \<open>Number\<close>: \<open>Num v\<close> when it is the integer \<open>v\<close>, \<open>NaN\<close> when it is
  \<open>NaN\<close>, and \<open>Unmodelled\<close> when it is a number other than \<open>NaN\<close> whose value is not
  written out here: that of a literal with a sign, a fraction, an exponent, a prefix or
  \<open>Infinity\<close>, and that of digits from \<open>2 ^ 53\<close> on, which the program rounds.
\<close>

datatype jsnum = Num int | NaN | Unmodelled

text \<open>The value of a string of decimal digits as an integer.\<close>

definition dec_int :: "string \<Rightarrow> int" where
  "dec_int s = foldl (\<lambda>a c. 10 * a + int (digit_val c)) 0 s"

definition Number :: "string \<Rightarrow> jsnum" where
  "Number s =
     (let t = trim s
      in if t = [] then Num 0
         else if list_all is_digit t
         then (if dec_int t < 9007199254740992 then Num (dec_int t) else Unmodelled)
         else if numeric_literal t then Unmodelled
         else NaN)"

subsection \<open>\<open>timeToMs\<close> and \<open>msToTime\<close>\<close>

text \<open>\<open>String.prototype.split\<close> with a one-character separator: the pieces between the
  separators, in order; a string without separator is its own single piece.\<close>

fun js_split :: "char \<Rightarrow> string \<Rightarrow> string list" where
  "js_split sep [] = [[]]"
| "js_split sep (c # cs) =
     (if c = sep then [] # js_split sep cs
      else (case js_split sep cs of
              [] \<Rightarrow> [[c]]
            | p # ps \<Rightarrow> (c # p) # ps))"

text \<open>\<open>parts[i] || 0\<close>: the element if it is a number other than 0; 0 when the index is
  past the end (\<open>undefined\<close>), when the element is \<open>NaN\<close>, and when it is 0. \<open>None\<close>
  when the element is a number whose value is not modelled.\<close>

definition part_or_0 :: "jsnum list \<Rightarrow> nat \<Rightarrow> int option" where
  "part_or_0 parts i =
     (if i < length parts
      then (case parts ! i of Num v \<Rightarrow> Some v | NaN \<Rightarrow> Some 0 | Unmodelled \<Rightarrow> None)
      else Some 0)"

text \<open>The result is \<open>Some\<close> when the three components are modelled and the result is
  below \<open>2 ^ 53\<close>: the components are then not negative, every intermediate value is an
  integer not above the result, and the doubles of the program are these integers.\<close>

definition timeToMs :: "string \<Rightarrow> int option" where
  "timeToMs timeStr =
     (let parts = map Number (js_split (CHR '':'') timeStr)
      in case (part_or_0 parts 0, part_or_0 parts 1, part_or_0 parts 2) of
           (Some h, Some m, Some s) \<Rightarrow>
             if (h * 3600 + m * 60 + s) * 1000 < 9007199254740992
             then Some ((h * 3600 + m * 60 + s) * 1000)
             else None
         | _ \<Rightarrow> None)"

text \<open>\<open>String(n)\<close> for an integer: decimal digits, with a minus sign when negative.\<close>

fun dec_str :: "nat \<Rightarrow> string" where
  "dec_str n = (if n < 10 then [digit_char n] else dec_str (n div 10) @ [digit_char (n mod 10)])"

declare dec_str.simps [simp del]

definition String_of :: "int \<Rightarrow> string" where
  "String_of n = (if n < 0 then CHR ''-'' # dec_str (nat (- n)) else dec_str (nat n))"

definition padStart :: "nat \<Rightarrow> char \<Rightarrow> string \<Rightarrow> string" where
  "padStart len c s = replicate (len - length s) c @ s"

text \<open>\<open>Math.round(ms / 1000)\<close> rounds halves up, which on integers is
  \<open>(ms + 500) div 1000\<close>; \<open>Math.floor(a / b)\<close> is \<open>div\<close>; \<open>%\<close> takes the sign of the
  dividend, which is \<open>smod\<close>.\<close>

definition msToTime :: "int \<Rightarrow> string" where
  "msToTime ms =
     (let totalSeconds = (ms + 500) div 1000;
          h = padStart 2 (CHR ''0'') (String_of (totalSeconds div 3600));
          m = padStart 2 (CHR ''0'') (String_of ((totalSeconds smod 3600) div 60));
          s = padStart 2 (CHR ''0'') (String_of (totalSeconds smod 60))
      in h @ '':'' @ m @ '':'' @ s)"


subsection \<open>What the specification calls a valid text and its normal form\<close>

text \<open>A field of a valid \<open>HH:MM:SS\<close> text: one to nine decimal digits. Nine digits keep
  every intermediate value of the two functions far below \<open>2 ^ 53\<close>, where the integer
  model above is exact.\<close>

definition hms_field :: "string \<Rightarrow> bool" where
  "hms_field s = (s \<noteq> [] \<and> length s \<le> 9 \<and> list_all is_digit s)"

definition valid_hms :: "string \<Rightarrow> bool" where
  "valid_hms text =
     (case js_split (CHR '':'') text of
        [h, m, s] \<Rightarrow> hms_field h \<and> hms_field m \<and> hms_field s
      | _ \<Rightarrow> False)"

text \<open>The total number of seconds a valid text denotes.\<close>

definition hms_seconds :: "string \<Rightarrow> nat" where
  "hms_seconds text =
     (case js_split (CHR '':'') text of
        [h, m, s] \<Rightarrow> dec_val h * 3600 + dec_val m * 60 + dec_val s
      | _ \<Rightarrow> 0)"

text \<open>The zero-padded normal form of a number of seconds: hours, minutes below 60 and
  seconds below 60, each written with at least two digits.\<close>

definition two_digits :: "nat \<Rightarrow> string" where
  "two_digits n = (if n < 10 then [CHR ''0'', digit_char n] else dec_str n)"

definition normal_hms :: "nat \<Rightarrow> string" where
  "normal_hms secs =
     two_digits (secs div 3600) @ '':'' @ two_digits (secs div 60 mod 60) @ '':'' @
     two_digits (secs mod 60)"

text \<open>A component of a duration text as the parser's rule speaks of it: it holds no
  colon, and it is non-numeric or made of at most nine decimal digits (none for an empty
  component). Its value is 0 when it is non-numeric.\<close>

definition duration_field :: "string \<Rightarrow> bool" where
  "duration_field c =
     (CHR '':'' \<notin> set c \<and> (\<not> js_numeric c \<or> list_all is_digit c \<and> length c \<le> 9))"

definition field_value :: "string \<Rightarrow> int" where
  "field_value c = (if js_numeric c then int (dec_val c) else 0)"

text \<open>A text that is already in normal form with a two-digit hour.\<close>

definition canonical_hms :: "string \<Rightarrow> bool" where
  "canonical_hms text =
     (case js_split (CHR '':'') text of
        [h, m, s] \<Rightarrow>
          length h = 2 \<and> length m = 2 \<and> length s = 2 \<and>
          list_all is_digit h \<and> list_all is_digit m \<and> list_all is_digit s \<and>
          dec_val m < 60 \<and> dec_val s < 60
      | _ \<Rightarrow> False)"

section \<open>Timer engine (js/timer-engine.js) and its collaborators\<close>

subsection \<open>Data\<close>

record task =
  name :: string
  duration :: string
  notify :: string
  icon :: string

text \<open>A group of the catalog; \<open>group_id\<close> and \<open>group_name\<close> are the source's \<open>id\<close>
  and \<open>name\<close>.\<close>

record grp =
  group_id :: string
  group_name :: string
  color :: string
  tasks :: "task list"

text \<open>The values the variable \<open>activeGroup\<close> takes: \<open>null\<close> (its initial value and the
  one \<open>stopTimer\<close> assigns), \<open>undefined\<close> (what \<open>Array.prototype.find\<close> returns when
  nothing matches) or a group.\<close>

datatype group_ref = Null | Undefined | Group grp

text \<open>\<open>!activeGroup\<close> is false exactly for a group.\<close>

fun truthy :: "group_ref \<Rightarrow> bool" where
  "truthy (Group g) = True"
| "truthy Null = False"
| "truthy Undefined = False"

text \<open>The object \<open>saveTimerState\<close> is given and \<open>recoverTimer\<close> receives.\<close>

record checkpoint =
  groupId :: string
  taskIndex :: int
  paused :: bool
  remaining :: int
  taskDuration :: int
  lastTick :: int

text \<open>The calls the engine makes to its collaborators (console, wake lock, display,
  notifications, storage, host timers), recorded in the order the source makes them.\<close>

datatype effect =
    ConsoleError string
  | RequestWakeLock
  | ReleaseWakeLock
  | UpdateTimerDisplay task string nat
  | SendTaskNotification string string
  | UpdateTimerTime int int
  | SaveTimerState checkpoint
  | ClearTimerState
  | SetInterval nat
  | ClearInterval "nat option"
  | HandleRoutineComplete bool

text \<open>A JavaScript completion: a normal return with a value, or a thrown exception.\<close>

datatype error = TypeError

datatype 'a completion = Returned 'a | Threw error

text \<open>
  The state: the module variables of the engine, and the part of the environment the
  engine reads and writes.
  \<^item> \<open>groups\<close> is the catalog of storage.js;
  \<open>stored\<close> is the value under the key \<open>routineFlowTimerState\<close> of localStorage;
  \<^item> \<open>clock\<close> and \<open>reads\<close> are the wall clock: the \<open>k\<close>-th call of \<open>Date.now()\<close>
    returns \<open>clock k\<close>, whatever these values are;
  \<^item> \<open>live\<close> are the handles of the intervals registered with the host and not yet
    cleared, \<open>nextHandle\<close> the handle the next \<open>setInterval\<close> returns;
  \<^item> \<open>trace\<close> are the collaborator calls made so far.
\<close>

record engine =
  groups :: "grp list"
  stored :: "checkpoint option"
  clock :: "nat \<Rightarrow> int"
  reads :: nat
  live :: "nat list"
  nextHandle :: nat
  trace :: "effect list"
  activeGroup :: group_ref
  currentTaskIndex :: nat
  timerInterval :: "nat option"
  isPaused :: bool
  startTime :: int
  taskDurationMs :: int
  remainingTimeMs :: int

text \<open>The state when the modules have been loaded and nothing has been called.\<close>

definition boot :: "grp list \<Rightarrow> checkpoint option \<Rightarrow> (nat \<Rightarrow> int) \<Rightarrow> engine" where
  "boot catalog cp clk =
     \<lparr>groups = catalog, stored = cp, clock = clk, reads = 0, live = [], nextHandle = 1,
      trace = [], activeGroup = Null, currentTaskIndex = 0, timerInterval = None,
      isPaused = False, startTime = 0, taskDurationMs = 0, remainingTimeMs = 0\<rparr>"

subsection \<open>Environment\<close>

text \<open>\<open>Date.now()\<close>: the value returned, and the state after the call.\<close>

definition Date_now :: "engine \<Rightarrow> int" where
  "Date_now s = clock s (reads s)"

definition after_Date_now :: "engine \<Rightarrow> engine" where
  "after_Date_now s = s\<lparr>reads := Suc (reads s)\<rparr>"

definition emit :: "effect \<Rightarrow> engine \<Rightarrow> engine" where
  "emit e s = s\<lparr>trace := trace s @ [e]\<rparr>"

text \<open>\<open>setInterval(timerTick, 100)\<close> returns a fresh handle and registers it;
  \<open>clearInterval(h)\<close> unregisters \<open>h\<close> and does nothing for \<open>null\<close>.\<close>

definition setInterval :: "engine \<Rightarrow> engine" where
  "setInterval s =
     emit (SetInterval (nextHandle s))
       (s\<lparr>live := live s @ [nextHandle s], nextHandle := Suc (nextHandle s)\<rparr>)"

definition clearInterval :: "nat option \<Rightarrow> engine \<Rightarrow> engine" where
  "clearInterval h s =
     emit (ClearInterval h)
       (s\<lparr>live := (case h of None \<Rightarrow> live s | Some i \<Rightarrow> removeAll i (live s))\<rparr>)"

text \<open>storage.js.\<close>

definition saveTimerState :: "checkpoint \<Rightarrow> engine \<Rightarrow> engine" where
  "saveTimerState state s = emit (SaveTimerState state) (s\<lparr>stored := Some state\<rparr>)"

definition clearTimerState :: "engine \<Rightarrow> engine" where
  "clearTimerState s = emit ClearTimerState (s\<lparr>stored := None\<rparr>)"

definition getGroupById :: "string \<Rightarrow> engine \<Rightarrow> group_ref" where
  "getGroupById gid s =
     (case find (\<lambda>g. group_id g = gid) (groups s) of
        None \<Rightarrow> Undefined
      | Some g \<Rightarrow> Group g)"

text \<open>\<open>xs[i]\<close> for a number \<open>i\<close>: \<open>undefined\<close> (here \<open>None\<close>) outside the array.\<close>

definition js_nth :: "'a list \<Rightarrow> int \<Rightarrow> 'a option" where
  "js_nth xs i = (if 0 \<le> i \<and> i < int (length xs) then Some (xs ! nat i) else None)"


subsection \<open>Operations of the engine\<close>

text \<open>The console, the wake lock, the display, the notifications and
  \<open>handleRoutineComplete\<close> are outside the engine: a call to one of them is recorded in
  the trace and changes nothing else. These calls, the calls to storage.js and the calls
  to the host's timers are taken not to throw.

  \<open>taskDurationMs\<close>, \<open>remainingTimeMs\<close> and \<open>startTime\<close> are integers of milliseconds.
  \<open>processTask\<close> takes the duration of a task from \<open>timeToMs\<close>; for a duration text
  whose value is not modelled (\<open>None\<close>) nothing is said of that integer.\<close>

definition stopTimer :: "bool \<Rightarrow> engine \<Rightarrow> engine" where
  "stopTimer finished s =
     (let s1 = clearInterval (timerInterval s) s;
          s2 = emit ReleaseWakeLock s1;
          s3 = clearTimerState s2;
          wasActive = (activeGroup s3 \<noteq> Null);
          s4 = s3\<lparr>activeGroup := Null, currentTaskIndex := 0, isPaused := False\<rparr>
      in if wasActive then emit (HandleRoutineComplete finished) s4 else s4)"

definition processTask :: "engine \<Rightarrow> engine" where
  "processTask s =
     (case activeGroup s of
        Group g \<Rightarrow>
          if currentTaskIndex s \<ge> length (tasks g) then stopTimer True s
          else
            (let currentTask = tasks g ! currentTaskIndex s;
                 s1 = s\<lparr>taskDurationMs := the (timeToMs (duration currentTask))\<rparr>;
                 s2 = s1\<lparr>remainingTimeMs := taskDurationMs s1\<rparr>;
                 s3 = (after_Date_now s2)\<lparr>startTime := Date_now s2\<rparr>;
                 s4 = s3\<lparr>isPaused := False\<rparr>;
                 s5 = emit (UpdateTimerDisplay currentTask (group_name g)
                              (currentTaskIndex s4 + 1)) s4;
                 s6 = (if notify currentTask = ''start'' \<or> notify currentTask = ''both''
                       then emit (SendTaskNotification (name currentTask) ''start'') s5
                       else s5);
                 s7 = clearInterval (timerInterval s6) s6;
                 s8 = setInterval s7
             in s8\<lparr>timerInterval := Some (nextHandle s7)\<rparr>)
      | _ \<Rightarrow> stopTimer True s)"

definition startTimer :: "string \<Rightarrow> engine \<Rightarrow> engine" where
  "startTimer gid s =
     (let s1 = s\<lparr>activeGroup := getGroupById gid s\<rparr>;
          s2 = s1\<lparr>currentTaskIndex := 0\<rparr>;
          s3 = s2\<lparr>isPaused := False\<rparr>
      in case activeGroup s3 of
           Group g \<Rightarrow>
             if length (tasks g) = 0 then emit (ConsoleError ''Cannot start an empty group.'') s3
             else processTask (emit RequestWakeLock s3)
         | _ \<Rightarrow> emit (ConsoleError ''Cannot start an empty group.'') s3)"

text \<open>The callback of the interval. On the completing tick, \<open>currentTask.notify\<close> is read
  from \<open>activeGroup.tasks[currentTaskIndex]\<close>, which throws when the index is outside
  the task list.\<close>

definition timerTick :: "engine \<Rightarrow> unit completion \<times> engine" where
  "timerTick s =
     (case activeGroup s of
        Group g \<Rightarrow>
          if isPaused s then (Returned (), s)
          else
            (let elapsed = Date_now s - startTime s;
                 s1 = (after_Date_now s)\<lparr>remainingTimeMs := max 0 (taskDurationMs s - elapsed)\<rparr>;
                 s2 = emit (UpdateTimerTime (remainingTimeMs s1) (taskDurationMs s1)) s1;
                 s3 = saveTimerState
                        \<lparr>groupId = group_id g, taskIndex = int (currentTaskIndex s2),
                         paused = False, remaining = remainingTimeMs s2,
                         taskDuration = taskDurationMs s2, lastTick = Date_now s2\<rparr>
                        (after_Date_now s2)
             in if remainingTimeMs s3 = 0 then
                  (let s4 = clearInterval (timerInterval s3) s3
                   in case js_nth (tasks g) (int (currentTaskIndex s4)) of
                        None \<Rightarrow> (Threw TypeError, s4)
                      | Some currentTask \<Rightarrow>
                          (let s5 = (if notify currentTask = ''end'' \<or> notify currentTask = ''both''
                                     then emit (SendTaskNotification (name currentTask) ''end'') s4
                                     else s4);
                               s6 = s5\<lparr>currentTaskIndex := currentTaskIndex s5 + 1\<rparr>
                           in (Returned (), processTask s6)))
                else (Returned (), s3))
      | _ \<Rightarrow> (Returned (), s))"

text \<open>\<open>activeGroup.id\<close> in the object given to \<open>saveTimerState\<close> throws when
  \<open>activeGroup\<close> is \<open>null\<close> or \<open>undefined\<close>; the assignments before it have been made.\<close>

definition togglePause :: "engine \<Rightarrow> bool completion \<times> engine" where
  "togglePause s =
     (let s1 = s\<lparr>isPaused := \<not> isPaused s\<rparr>;
          s2 = (if \<not> isPaused s1 then
                  (let s1a = (after_Date_now s1)
                               \<lparr>startTime := Date_now s1 - (taskDurationMs s1 - remainingTimeMs s1)\<rparr>;
                       s1b = clearInterval (timerInterval s1a) s1a;
                       s1c = setInterval s1b
                   in s1c\<lparr>timerInterval := Some (nextHandle s1b)\<rparr>)
                else clearInterval (timerInterval s1) s1)
      in case activeGroup s2 of
           Group g \<Rightarrow>
             (let s3 = saveTimerState
                         \<lparr>groupId = group_id g, taskIndex = int (currentTaskIndex s2),
                          paused = isPaused s2, remaining = remainingTimeMs s2,
                          taskDuration = taskDurationMs s2, lastTick = Date_now s2\<rparr>
                         (after_Date_now s2)
              in (Returned (isPaused s3), s3))
         | _ \<Rightarrow> (Threw TypeError, s2))"

definition skipTask :: "engine \<Rightarrow> engine" where
  "skipTask s =
     (if \<not> truthy (activeGroup s) then s
      else
        (let s1 = clearInterval (timerInterval s) s;
             s2 = s1\<lparr>currentTaskIndex := currentTaskIndex s1 + 1\<rparr>
         in processTask s2))"

definition recoverTimer :: "checkpoint \<Rightarrow> engine \<Rightarrow> bool \<times> engine" where
  "recoverTimer state s =
     (let s1 = s\<lparr>activeGroup := getGroupById (groupId state) s\<rparr>
      in case activeGroup s1 of
           Group g \<Rightarrow>
             (case js_nth (tasks g) (taskIndex state) of
                None \<Rightarrow> (False, clearTimerState s1)
              | Some currentTask \<Rightarrow>
                  (let s2 = s1\<lparr>currentTaskIndex := nat (taskIndex state)\<rparr>;
                       s3 = s2\<lparr>taskDurationMs := taskDuration state\<rparr>;
                       s4 = s3\<lparr>remainingTimeMs := remaining state\<rparr>;
                       s5 = s4\<lparr>isPaused := paused state\<rparr>;
                       s6 = emit RequestWakeLock s5;
                       s7 = emit (UpdateTimerDisplay currentTask (group_name g)
                                    (currentTaskIndex s6 + 1)) s6;
                       s8 = emit (UpdateTimerTime (remainingTimeMs s7) (taskDurationMs s7)) s7
                   in if \<not> isPaused s8 then
                        (let timeSinceLastTick = Date_now s8 - lastTick state;
                             s9 = (after_Date_now s8)
                                    \<lparr>remainingTimeMs := max 0 (remainingTimeMs s8 - timeSinceLastTick)\<rparr>;
                             s10 = (after_Date_now s9)
                                     \<lparr>startTime := Date_now s9 - (taskDurationMs s9 - remainingTimeMs s9)\<rparr>;
                             s11 = setInterval s10
                         in (True, s11\<lparr>timerInterval := Some (nextHandle s10)\<rparr>))
                      else (True, s8)))
         | _ \<Rightarrow> (False, clearTimerState s1))"

subsection \<open>The host's timer loop\<close>

text \<open>The host calls \<open>timerTick\<close> for an interval only while its handle is registered. An
  exception thrown by the callback is reported by the host and ends that call; the
  assignments made before it stay. A run of the host is the list of the handles whose
  turn comes, in order.\<close>

definition fire :: "nat \<Rightarrow> engine \<Rightarrow> engine" where
  "fire h s = (if h \<in> set (live s) then snd (timerTick s) else s)"

definition run :: "nat list \<Rightarrow> engine \<Rightarrow> engine" where
  "run hs s = foldl (\<lambda>st h. fire h st) s hs"

text \<open>Real time passing between two calls: every later reading of the clock is \<open>d\<close>
  milliseconds greater.\<close>

definition elapse :: "int \<Rightarrow> engine \<Rightarrow> engine" where
  "elapse d s = s\<lparr>clock := (\<lambda>k. if reads s \<le> k then clock s k + d else clock s k)\<rparr>"

subsection \<open>What a completed routine is expected to have emitted\<close>

text \<open>The calls that show a task: the display of a task that begins and the
  notifications.\<close>

fun is_task_event :: "effect \<Rightarrow> bool" where
  "is_task_event (UpdateTimerDisplay t n i) = True"
| "is_task_event (SendTaskNotification n p) = True"
| "is_task_event _ = False"

definition task_events :: "effect list \<Rightarrow> effect list" where
  "task_events es = filter is_task_event es"

text \<open>For the task at index \<open>i\<close> of a group: it is shown with number \<open>i + 1\<close>, then one start
  notification if its policy is \<open>start\<close> or \<open>both\<close>; at its end one end notification if
  its policy is \<open>end\<close> or \<open>both\<close>.\<close>

definition begin_events :: "grp \<Rightarrow> nat \<Rightarrow> effect list" where
  "begin_events g i =
     (let t = tasks g ! i
      in UpdateTimerDisplay t (group_name g) (i + 1) #
         (if notify t = ''start'' \<or> notify t = ''both''
          then [SendTaskNotification (name t) ''start''] else []))"

definition end_events :: "grp \<Rightarrow> nat \<Rightarrow> effect list" where
  "end_events g i =
     (let t = tasks g ! i
      in if notify t = ''end'' \<or> notify t = ''both''
         then [SendTaskNotification (name t) ''end''] else [])"

definition expected_events :: "grp \<Rightarrow> effect list" where
  "expected_events g =
     concat (map (\<lambda>i. begin_events g i @ end_events g i) [0..<length (tasks g)])"

text \<open>The numbers under which tasks were shown, in order.\<close>

fun shown_numbers :: "effect list \<Rightarrow> nat list" where
  "shown_numbers [] = []"
| "shown_numbers (UpdateTimerDisplay t n i # es) = i # shown_numbers es"
| "shown_numbers (e # es) = shown_numbers es"


text \<open>The names of the tasks notified with phase \<open>p\<close>, in order.\<close>

fun notified :: "string \<Rightarrow> effect list \<Rightarrow> string list" where
  "notified p [] = []"
| "notified p (SendTaskNotification n q # es) =
     (if q = p then n # notified p es else notified p es)"
| "notified p (e # es) = notified p es"

text \<open>A clock that advances one hour at every reading.\<close>

definition hour_clock :: "nat \<Rightarrow> int" where
  "hour_clock k = 3600000 * int (Suc k)"

text \<open>A task is polled by the interval \<open>h\<close>, it began at the last reading of the clock
  and lasts at most \<open>D\<close>.\<close>

definition due :: "grp \<Rightarrow> (nat \<Rightarrow> int) \<Rightarrow> int \<Rightarrow> nat \<Rightarrow> engine \<Rightarrow> bool" where
  "due g clk D h s =
     (activeGroup s = Group g \<and> \<not> isPaused s \<and> currentTaskIndex s < length (tasks g) \<and>
      timerInterval s = Some h \<and> h \<in> set (live s) \<and> nextHandle s = Suc h \<and>
      clock s = clk \<and> 0 < reads s \<and> startTime s = clk (reads s - 1) \<and>
      taskDurationMs s \<le> D)"

text \<open>What has been emitted when the task at index \<open>i\<close> has begun, and the invariant of
  a routine between its start and its end.\<close>

definition progress_events :: "grp \<Rightarrow> nat \<Rightarrow> effect list" where
  "progress_events g i =
     concat (map (\<lambda>j. begin_events g j @ end_events g j) [0..<i]) @ begin_events g i"

definition routine_inv :: "grp \<Rightarrow> effect list \<Rightarrow> engine \<Rightarrow> bool" where
  "routine_inv g base s =
     (activeGroup s = Group g \<and> \<not> isPaused s \<and> currentTaskIndex s < length (tasks g) \<and>
        task_events (trace s) = base @ progress_events g (currentTaskIndex s)
      \<or> activeGroup s = Null \<and> task_events (trace s) = base @ expected_events g \<and>
        last (trace s) = HandleRoutineComplete True)"

subsection \<open>Example data\<close>

text \<open>The default group \<open>initApp\<close> creates (its icons, which are not ASCII, left empty), a
  clock that advances one minute at every reading, and sessions of that group.\<close>

definition default_group :: grp where
  "default_group =
     \<lparr>group_id = ''group-default'', group_name = ''Quick Demo Routine'', color = ''#17a2b8'',
      tasks = [\<lparr>name = ''Warm-up'', duration = ''00:03:00'', notify = ''end'', icon = []\<rparr>,
               \<lparr>name = ''Work Set'', duration = ''00:15:00'', notify = ''start'', icon = []\<rparr>,
               \<lparr>name = ''Cool-down'', duration = ''00:05:00'', notify = ''end'', icon = []\<rparr>]\<rparr>"

text \<open>A group without tasks, as the catalog read from storage can hold one.\<close>

definition empty_group :: grp where
  "empty_group = \<lparr>group_id = ''group-empty'', group_name = ''Empty'', color = [], tasks = []\<rparr>"

definition minute_clock :: "nat \<Rightarrow> int" where
  "minute_clock k = 60000 * int (Suc k)"

definition running_session :: engine where
  "running_session = run [1] (startTimer ''group-default'' (boot [default_group] None minute_clock))"

definition paused_session :: engine where
  "paused_session =
     snd (togglePause (run [1, 1] (startTimer ''group-default'' (boot [default_group] None minute_clock))))"

definition stale_checkpoint :: checkpoint where
  "stale_checkpoint =
     \<lparr>groupId = ''group-default'', taskIndex = 3, paused = False, remaining = 10000,
      taskDuration = 300000, lastTick = 0\<rparr>"

definition away_checkpoint :: checkpoint where
  "away_checkpoint =
     \<lparr>groupId = ''group-default'', taskIndex = 2, paused = False, remaining = 10000,
      taskDuration = 300000, lastTick = 56000\<rparr>"

definition after_bad_recovery :: engine where
  "after_bad_recovery =
     snd (recoverTimer stale_checkpoint (boot [default_group] (Some stale_checkpoint) minute_clock))"


section \<open>Properties of the duration codec\<close>

lemma smod_nonneg: "0 \<le> a \<Longrightarrow> 0 < b \<Longrightarrow> (a::int) smod b = a mod b"
  by (simp add: signed_modulo_int_def sgn_if)

lemma digit_char_lt10: "n < 10 \<Longrightarrow> is_digit (digit_char n) \<and> digit_val (digit_char n) = n \<and> digit_char n \<noteq> CHR '':''"
proof -
  assume "n < 10"
  then have "n \<in> {0, 1, 2, 3, 4, 5, 6, 7, 8, 9}" by auto
  then show ?thesis
    by (auto simp add: is_digit_def digit_char_def digit_val_def)
qed

lemma digit_char_val: "is_digit c \<Longrightarrow> digit_char (digit_val c) = c \<and> digit_val c < 10 \<and> c \<noteq> CHR '':''"
  by (auto simp: is_digit_def digit_char_def digit_val_def)

lemma dec_val_snoc: "dec_val (s @ [c]) = 10 * dec_val s + digit_val c"
  by (simp add: dec_val_def)

lemma dec_str_digits: "list_all is_digit (dec_str n)"
proof (induction n rule: dec_str.induct)
  case (1 n)
  show ?case
  proof (cases "n < 10")
    case True
    then show ?thesis by (subst dec_str.simps) (simp add: digit_char_lt10)
  next
    case False
    with 1 show ?thesis by (subst dec_str.simps) (simp add: digit_char_lt10)
  qed
qed

lemma dec_val_dec_str: "dec_val (dec_str n) = n"
proof (induction n rule: dec_str.induct)
  case (1 n)
  show ?case
  proof (cases "n < 10")
    case True
    then show ?thesis by (subst dec_str.simps) (simp add: dec_val_def digit_char_lt10)
  next
    case False
    with 1 show ?thesis by (subst dec_str.simps) (simp add: dec_val_snoc digit_char_lt10)
  qed
qed

lemma dec_str_small: "n < 10 \<Longrightarrow> dec_str n = [digit_char n]"
  by (subst dec_str.simps) simp

lemma dec_str_large: "\<not> n < 10 \<Longrightarrow> dec_str n = dec_str (n div 10) @ [digit_char (n mod 10)]"
  by (subst dec_str.simps) simp

lemma dec_str_nonempty: "dec_str n \<noteq> []"
  by (subst dec_str.simps) simp

lemma js_split_no_sep: "sep \<notin> set s \<Longrightarrow> js_split sep s = [s]"
  by (induction s) auto

lemma js_split_append: "sep \<notin> set a \<Longrightarrow> js_split sep (a @ sep # r) = a # js_split sep r"
  by (induction a) auto

lemma js_split_nonempty: "js_split sep s \<noteq> []"
  by (induction s) (auto split: list.splits)


lemma dec_str_length2: "\<not> n < 10 \<Longrightarrow> 2 \<le> length (dec_str n)"
proof -
  assume big: "\<not> n < 10"
  have "dec_str (n div 10) \<noteq> []" by (rule dec_str_nonempty)
  then have "1 \<le> length (dec_str (n div 10))" by (cases "dec_str (n div 10)") simp_all
  moreover have "length (dec_str n) = Suc (length (dec_str (n div 10)))"
    by (subst dec_str_large [OF big]) simp
  ultimately show ?thesis by simp
qed

lemma pad_two_digits: "padStart 2 (CHR ''0'') (String_of (int n)) = two_digits n"
proof (cases "n < 10")
  case True
  then have "dec_str n = [digit_char n]" by (rule dec_str_small)
  with True show ?thesis
    by (simp add: padStart_def String_of_def two_digits_def)
next
  case False
  then have "2 \<le> length (dec_str n)" by (rule dec_str_length2)
  with False show ?thesis
    by (simp add: padStart_def String_of_def two_digits_def)
qed

lemma two_digits_digits: "list_all is_digit (two_digits n)"
proof (cases "n < 10")
  case True
  moreover have "is_digit (CHR ''0'')" by (simp add: is_digit_def)
  ultimately show ?thesis by (simp add: two_digits_def digit_char_lt10)
next
  case False
  then show ?thesis by (simp add: two_digits_def dec_str_digits)
qed

lemma two_digits_val: "dec_val (two_digits n) = n"
proof (cases "n < 10")
  case True
  moreover have "digit_val (CHR ''0'') = 0" by (simp add: digit_val_def)
  ultimately show ?thesis by (simp add: two_digits_def dec_val_def digit_char_lt10)
next
  case False
  then show ?thesis by (simp add: two_digits_def dec_val_dec_str)
qed

lemma digits_no_colon: "list_all is_digit s \<Longrightarrow> CHR '':'' \<notin> set s"
  by (induction s) (auto simp: is_digit_def)

lemma mod3600: "(n::nat) mod 3600 = 60 * (n div 60 mod 60) + n mod 60"
  using mod_mult2_eq [of n 60 60] by simp

lemma minutes_eq: "(n::nat) mod 3600 div 60 = n div 60 mod 60"
  by (simp add: mod3600)

lemma hms_recompose: "(n::nat) div 3600 * 3600 + (n div 60 mod 60) * 60 + n mod 60 = n"
proof -
  have "n = 3600 * (n div 3600) + n mod 3600" by simp
  then show ?thesis by (simp add: mod3600)
qed

lemma hms_decompose:
  assumes "m < 60" "s < (60::nat)"
  shows "(h * 3600 + m * 60 + s) div 3600 = h"
    and "(h * 3600 + m * 60 + s) div 60 mod 60 = m"
    and "(h * 3600 + m * 60 + s) mod 60 = s"
proof -
  let ?t = "h * 3600 + m * 60 + s"
  have e: "?t = (h * 60 + m) * 60 + s" by simp
  have "((h * 60 + m) * 60 + s) mod 60 = s mod 60" by (rule mod_mult_self3)
  with assms show "?t mod 60 = s" by (simp only: e mod_less)
  have "((h * 60 + m) * 60 + s) div 60 = (h * 60 + m) + s div 60" by (rule div_mult_self3) simp
  with assms have d: "?t div 60 = h * 60 + m" by (simp only: e div_less add_0_right)
  have "(h * 60 + m) mod 60 = m mod 60" by (rule mod_mult_self3)
  with assms show "?t div 60 mod 60 = m" by (simp only: d mod_less)
  have "(h * 60 + m) div 60 = h + m div 60" by (rule div_mult_self3) simp
  with assms have d2: "(h * 60 + m) div 60 = h" by (simp only: div_less add_0_right)
  have "?t div 3600 = ?t div 60 div 60"
    using div_mult2_eq [of ?t 60 60] by simp
  then show "?t div 3600 = h" by (simp only: d d2)
qed

lemma msToTime_seconds: "msToTime (int secs * 1000) = normal_hms secs"
proof -
  have ts: "(int secs * 1000 + 500) div 1000 = int secs" by simp
  have h: "int secs div 3600 = int (secs div 3600)" by (simp add: zdiv_int)
  have m: "(int secs smod 3600) div 60 = int (secs div 60 mod 60)"
  proof -
    have "(int secs smod 3600) div 60 = int (secs mod 3600 div 60)"
      by (simp add: smod_nonneg zmod_int zdiv_int)
    moreover have "secs mod 3600 div 60 = secs div 60 mod 60"
      by (rule minutes_eq)
    ultimately show ?thesis by simp
  qed
  have s: "int secs smod 60 = int (secs mod 60)"
    by (simp add: smod_nonneg zmod_int)
  show ?thesis
    unfolding msToTime_def Let_def ts h m s pad_two_digits normal_hms_def ..
qed

subsection \<open>\<open>Number\<close> on digits and on non-numeric strings\<close>

lemma dec_int_foldl:
  "foldl (\<lambda>a c. 10 * a + int (digit_val c)) (int n) s =
     int (foldl (\<lambda>a c. 10 * a + digit_val c) n s)"
proof (induction s arbitrary: n)
  case Nil
  show ?case by simp
next
  case (Cons c s)
  have "10 * int n + int (digit_val c) = int (10 * n + digit_val c)" by simp
  then show ?case by (simp only: foldl.simps Cons.IH)
qed

lemma dec_int_val: "dec_int s = int (dec_val s)"
  using dec_int_foldl [of 0 s] by (simp add: dec_int_def dec_val_def)

lemma dec_val_bound: "list_all is_digit s \<Longrightarrow> dec_val s < 10 ^ length s"
proof (induction s rule: rev_induct)
  case Nil
  show ?case by (simp add: dec_val_def)
next
  case (snoc c s)
  then have d: "digit_val c < 10" and b: "dec_val s < 10 ^ length s"
    by (simp_all add: digit_char_val)
  from b have "10 * dec_val s + 10 \<le> 10 * 10 ^ length s" by simp
  with d show ?case by (simp add: dec_val_snoc)
qed

lemma dec_val_nine: "list_all is_digit s \<Longrightarrow> length s \<le> 9 \<Longrightarrow> dec_val s < 1000000000"
proof -
  assume d: "list_all is_digit s" and l: "length s \<le> 9"
  have "(10::nat) ^ length s \<le> 10 ^ 9" using l by (rule power_increasing) simp
  with dec_val_bound [OF d] show ?thesis by simp
qed

lemma ws_length_digit:
  assumes "is_digit c"
  shows "ws_length white_space (c # cs) = 0" and "ws_length (map rev white_space) (c # cs) = 0"
proof -
  from assms have "c \<in> set ''0123456789''" by (simp add: is_digit_def)
  then consider "c = CHR ''0''" | "c = CHR ''1''" | "c = CHR ''2''" | "c = CHR ''3''"
    | "c = CHR ''4''" | "c = CHR ''5''" | "c = CHR ''6''" | "c = CHR ''7''"
    | "c = CHR ''8''" | "c = CHR ''9''"
    by auto
  then have "ws_length white_space (c # cs) = 0 \<and> ws_length (map rev white_space) (c # cs) = 0"
    by cases (simp_all add: ws_length_def white_space_def)
  then show "ws_length white_space (c # cs) = 0"
    and "ws_length (map rev white_space) (c # cs) = 0" by simp_all
qed

lemma ws_length_Nil: "ws_length ws [] = 0"
  by (auto simp add: ws_length_def)

lemma strip_start_digits:
  assumes "list_all is_digit s"
  shows "strip_start white_space s = s" and "strip_start (map rev white_space) s = s"
proof -
  have z: "ws_length white_space s = 0 \<and> ws_length (map rev white_space) s = 0"
  proof (cases s)
    case Nil
    then show ?thesis by (simp add: ws_length_Nil)
  next
    case (Cons c cs)
    with assms have "is_digit c" by simp
    then show ?thesis unfolding Cons by (simp add: ws_length_digit)
  qed
  from z show "strip_start white_space s = s"
    by (subst strip_start.simps) simp
  from z show "strip_start (map rev white_space) s = s"
    by (subst strip_start.simps) simp
qed

lemma trim_digits: "list_all is_digit s \<Longrightarrow> trim s = s"
  by (simp add: trim_def strip_start_digits)

lemma numeric_literal_digits:
  assumes "list_all is_digit t" and "t \<noteq> []"
  shows "numeric_literal t"
proof -
  from assms obtain c r where t: "t = c # r" and c: "is_digit c" by (cases t) auto
  from c have ns: "c \<noteq> CHR ''+''" "c \<noteq> CHR ''-''" by (auto simp: is_digit_def)
  from assms(1) have tw: "takeWhile is_digit t = t" and dw: "dropWhile is_digit t = []"
    by (simp_all add: list_all_iff)
  from assms(2) have "unsigned_decimal t"
    by (simp add: unsigned_decimal_def tw dw)
  with ns show ?thesis by (simp add: numeric_literal_def t)
qed

lemma js_numeric_digits: "list_all is_digit s \<Longrightarrow> js_numeric s"
  by (cases "s = []") (simp_all add: js_numeric_def trim_digits numeric_literal_digits)

lemma Number_digits:
  assumes "list_all is_digit s" and "int (dec_val s) < 9007199254740992"
  shows "Number s = Num (int (dec_val s))"
proof (cases "s = []")
  case True
  then show ?thesis by (simp add: Number_def trim_digits dec_val_def)
next
  case False
  with assms show ?thesis by (simp add: Number_def trim_digits dec_int_val)
qed

lemma Number_non_numeric:
  assumes "\<not> js_numeric s"
  shows "Number s = NaN"
proof -
  from assms have e: "trim s \<noteq> []" and n: "\<not> numeric_literal (trim s)"
    by (simp_all add: js_numeric_def)
  from n e have "\<not> list_all is_digit (trim s)"
    using numeric_literal_digits by blast
  with e n show ?thesis by (simp add: Number_def)
qed

lemma field_Number:
  assumes "duration_field c"
  shows "(case Number c of Num v \<Rightarrow> Some v | NaN \<Rightarrow> Some 0 | Unmodelled \<Rightarrow> None) =
           Some (field_value c)"
    and "0 \<le> field_value c" and "field_value c < 1000000000"
proof -
  show "0 \<le> field_value c" by (simp add: field_value_def)
  show "(case Number c of Num v \<Rightarrow> Some v | NaN \<Rightarrow> Some 0 | Unmodelled \<Rightarrow> None) =
           Some (field_value c)"
  proof (cases "js_numeric c")
    case False
    then show ?thesis by (simp add: Number_non_numeric field_value_def)
  next
    case True
    with assms have d: "list_all is_digit c" and l: "length c \<le> 9"
      by (simp_all add: duration_field_def)
    from dec_val_nine [OF d l] have "int (dec_val c) < 9007199254740992" by simp
    from Number_digits [OF d this] True show ?thesis by (simp add: field_value_def)
  qed
  show "field_value c < 1000000000"
  proof (cases "js_numeric c")
    case False
    then show ?thesis by (simp add: field_value_def)
  next
    case True
    with assms have d: "list_all is_digit c" and l: "length c \<le> 9"
      by (simp_all add: duration_field_def)
    from dec_val_nine [OF d l] True show ?thesis by (simp add: field_value_def)
  qed
qed

lemma digits_field: "list_all is_digit c \<Longrightarrow> length c \<le> 9 \<Longrightarrow> duration_field c"
  by (simp add: duration_field_def digits_no_colon)

lemma digits_field_value: "list_all is_digit c \<Longrightarrow> field_value c = int (dec_val c)"
  by (simp add: field_value_def js_numeric_digits)

subsection \<open>\<open>timeToMs\<close> on one, two, three and more components\<close>

lemma timeToMs_fields:
  assumes sp: "js_split (CHR '':'') str = ps"
    and p0: "part_or_0 (map Number ps) 0 = Some h"
    and p1: "part_or_0 (map Number ps) 1 = Some m"
    and p2: "part_or_0 (map Number ps) 2 = Some s"
    and b: "0 \<le> h" "h < 1000000000" "0 \<le> m" "m < 1000000000" "0 \<le> s" "s < 1000000000"
  shows "timeToMs str = Some ((h * 3600 + m * 60 + s) * 1000)"
proof -
  from b have "(h * 3600 + m * 60 + s) * 1000 < 9007199254740992" by simp
  then show ?thesis
    unfolding timeToMs_def Let_def sp p0 p1 p2 by simp
qed

lemma part_field:
  assumes "i < length ps" and "duration_field (ps ! i)"
  shows "part_or_0 (map Number ps) i = Some (field_value (ps ! i))"
  using assms field_Number(1) [OF assms(2)] by (simp add: part_or_0_def)

lemma js_split_single: "js_split sep str = [a] \<Longrightarrow> str = a"
proof (induction str arbitrary: a)
  case Nil
  then show ?case by simp
next
  case (Cons c cs)
  then show ?case
    by (auto split: if_splits list.splits simp: js_split_nonempty)
qed

lemma js_split_cons:
  "js_split sep str = a # b # rest \<Longrightarrow> \<exists>r. str = a @ sep # r \<and> js_split sep r = b # rest"
proof (induction str arbitrary: a)
  case Nil
  then show ?case by simp
next
  case (Cons c cs)
  show ?case
  proof (cases "c = sep")
    case True
    with Cons.prems show ?thesis by auto
  next
    case False
    with Cons.prems obtain p where p: "js_split sep cs = p # b # rest" and a: "a = c # p"
      by (auto split: list.splits)
    from Cons.IH [OF p] obtain r where "cs = p @ sep # r" "js_split sep r = b # rest" by blast
    with a show ?thesis by auto
  qed
qed

lemma js_split_join3: "js_split sep text = [a, b, c] \<Longrightarrow> text = a @ sep # b @ sep # c"
proof -
  assume s: "js_split sep text = [a, b, c]"
  from js_split_cons [OF s] obtain r where r: "text = a @ sep # r" "js_split sep r = [b, c]" by blast
  from js_split_cons [OF r(2)] obtain r' where r': "r = b @ sep # r'" "js_split sep r' = [c]" by blast
  from js_split_single [OF r'(2)] r r' show ?thesis by simp
qed

lemma two_digits_pair:
  assumes d: "is_digit a" "is_digit b"
  shows "two_digits (dec_val [a, b]) = [a, b]"
proof -
  let ?va = "digit_val a" and ?vb = "digit_val b"
  from d have va: "?va < 10" "digit_char ?va = a" and vb: "?vb < 10" "digit_char ?vb = b"
    by (simp_all add: digit_char_val)
  have v: "dec_val [a, b] = 10 * ?va + ?vb" by (simp add: dec_val_def)
  show ?thesis
  proof (cases "10 * ?va + ?vb < 10")
    case True
    then have z: "?va = 0" by simp
    with va have a0: "a = CHR ''0''" by (simp add: digit_char_def)
    from z have "10 * ?va + ?vb = ?vb" by simp
    then have "two_digits (10 * ?va + ?vb) = [CHR ''0'', digit_char ?vb]"
      using vb(1) by (simp add: two_digits_def)
    then show ?thesis unfolding v by (simp only: vb(2) a0)
  next
    case False
    have "dec_str (10 * ?va + ?vb) = dec_str ((10 * ?va + ?vb) div 10) @ [digit_char ((10 * ?va + ?vb) mod 10)]"
      by (rule dec_str_large [OF False])
    also from vb have "(10 * ?va + ?vb) div 10 = ?va" by simp
    also from vb have "(10 * ?va + ?vb) mod 10 = ?vb" by simp
    also from va have "dec_str ?va = [digit_char ?va]" by (simp add: dec_str_small)
    finally have "dec_str (10 * ?va + ?vb) = [a, b]" using va vb by simp
    with False show ?thesis unfolding v two_digits_def by simp
  qed
qed

lemma two_digits_canon:
  assumes "length s = 2" "list_all is_digit s"
  shows "two_digits (dec_val s) = s"
proof -
  from assms obtain a b where s: "s = [a, b]" and d: "is_digit a" "is_digit b"
    by (cases s; cases "tl s") auto
  show ?thesis unfolding s by (rule two_digits_pair [OF d])
qed

lemma timeToMs_three:
  assumes sp: "js_split (CHR '':'') str = [h, m, s]"
    and f: "hms_field h" "hms_field m" "hms_field s"
  shows "timeToMs str = Some (int (dec_val h * 3600 + dec_val m * 60 + dec_val s) * 1000)"
    and "int (dec_val h * 3600 + dec_val m * 60 + dec_val s) * 1000 < 9007199254740992"
proof -
  from f have d: "list_all is_digit h" "list_all is_digit m" "list_all is_digit s"
    and l: "length h \<le> 9" "length m \<le> 9" "length s \<le> 9"
    by (simp_all add: hms_field_def)
  have fl: "duration_field ([h, m, s] ! 0)" "duration_field ([h, m, s] ! 1)"
    "duration_field ([h, m, s] ! 2)"
    using d l by (simp_all add: digits_field)
  have v: "field_value h = int (dec_val h)" "field_value m = int (dec_val m)"
    "field_value s = int (dec_val s)"
    using d by (simp_all add: digits_field_value)
  have b: "dec_val h < 1000000000" "dec_val m < 1000000000" "dec_val s < 1000000000"
    using d l by (simp_all add: dec_val_nine)
  then show "int (dec_val h * 3600 + dec_val m * 60 + dec_val s) * 1000 < 9007199254740992"
    by simp
  have "timeToMs str =
      Some ((int (dec_val h) * 3600 + int (dec_val m) * 60 + int (dec_val s)) * 1000)"
    using b part_field [OF _ fl(1)] part_field [OF _ fl(2)] part_field [OF _ fl(3)]
    by (intro timeToMs_fields [OF sp]) (simp_all add: v)
  then show "timeToMs str = Some (int (dec_val h * 3600 + dec_val m * 60 + dec_val s) * 1000)"
    by simp
qed

lemma Number_two_digits:
  "int n < 9007199254740992 \<Longrightarrow> Number (two_digits n) = Num (int n)"
  using Number_digits [OF two_digits_digits [of n]] by (simp add: two_digits_val)

lemma normal_hms_parse:
  assumes "int secs * 1000 < 9007199254740992"
  shows "timeToMs (normal_hms secs) = Some (int secs * 1000)"
proof -
  define hh mm ss where "hh = secs div 3600" and "mm = secs div 60 mod 60" and "ss = secs mod 60"
  have sp: "js_split (CHR '':'') (normal_hms secs) = [two_digits hh, two_digits mm, two_digits ss]"
    unfolding normal_hms_def hh_def mm_def ss_def
    by (simp add: js_split_append js_split_no_sep digits_no_colon two_digits_digits)
  have rn: "hh * 3600 + mm * 60 + ss = secs"
    unfolding hh_def mm_def ss_def by (rule hms_recompose)
  then have le: "hh \<le> secs" "mm \<le> secs" "ss \<le> secs" by linarith+
  with assms have n: "Number (two_digits hh) = Num (int hh)"
    "Number (two_digits mm) = Num (int mm)" "Number (two_digits ss) = Num (int ss)"
    by (simp_all add: Number_two_digits)
  have "int (hh * 3600 + mm * 60 + ss) = int secs" by (simp only: rn)
  then have r: "int hh * 3600 + int mm * 60 + int ss = int secs" by simp
  have p: "part_or_0 (map Number [two_digits hh, two_digits mm, two_digits ss]) 0 = Some (int hh)"
    "part_or_0 (map Number [two_digits hh, two_digits mm, two_digits ss]) 1 = Some (int mm)"
    "part_or_0 (map Number [two_digits hh, two_digits mm, two_digits ss]) 2 = Some (int ss)"
    by (simp_all add: part_or_0_def n)
  from assms show ?thesis
    unfolding timeToMs_def Let_def sp p by (simp add: r)
qed

text \<open>
  Claim C8. For every valid \<open>HH:MM:SS\<close> text, formatting the parsed duration gives the
  zero-padded normal form of the same total number of seconds. The round trip holds at
  whole seconds: parsing the formatted text gives the parsed duration again, and a text
  already in normal form is returned unchanged.
\<close>

theorem duration_roundtrip:
  assumes "valid_hms text"
  shows "map_option msToTime (timeToMs text) = Some (normal_hms (hms_seconds text)) \<and>
         Option.bind (map_option msToTime (timeToMs text)) timeToMs = timeToMs text \<and>
         (canonical_hms text \<longrightarrow> map_option msToTime (timeToMs text) = Some text)"
proof -
  from assms obtain h m s where sp: "js_split (CHR '':'') text = [h, m, s]"
    and f: "hms_field h" "hms_field m" "hms_field s"
    by (auto simp: valid_hms_def split: list.splits)
  have sec: "hms_seconds text = dec_val h * 3600 + dec_val m * 60 + dec_val s"
    by (simp add: hms_seconds_def sp)
  have ms: "timeToMs text = Some (int (hms_seconds text) * 1000)"
    and b: "int (hms_seconds text) * 1000 < 9007199254740992"
    unfolding sec by (rule timeToMs_three [OF sp f])+
  have fmt: "map_option msToTime (timeToMs text) = Some (normal_hms (hms_seconds text))"
    by (simp add: ms msToTime_seconds)
  have rt: "Option.bind (map_option msToTime (timeToMs text)) timeToMs = timeToMs text"
    by (simp add: ms msToTime_seconds normal_hms_parse [OF b])
  have canon: "canonical_hms text \<longrightarrow> map_option msToTime (timeToMs text) = Some text"
  proof
    assume "canonical_hms text"
    with sp have len: "length h = 2" "length m = 2" "length s = 2"
      and dig: "list_all is_digit h" "list_all is_digit m" "list_all is_digit s"
      and lt: "dec_val m < 60" "dec_val s < 60"
      by (simp_all add: canonical_hms_def)
    from lt have "hms_seconds text div 3600 = dec_val h"
      and "hms_seconds text div 60 mod 60 = dec_val m"
      and "hms_seconds text mod 60 = dec_val s"
      unfolding sec by (rule hms_decompose)+
    then have "normal_hms (hms_seconds text) = h @ '':'' @ m @ '':'' @ s"
      by (simp add: normal_hms_def two_digits_canon len dig)
    with js_split_join3 [OF sp] fmt show "map_option msToTime (timeToMs text) = Some text"
      by simp
  qed
  from fmt rt canon show ?thesis by (intro conjI)
qed

theorem duration_roundtrip_witness:
  "valid_hms ''00:90:75'' \<and> canonical_hms ''00:05:00'' \<and>
   map_option msToTime (timeToMs ''00:90:75'') = Some ''01:31:15'' \<and>
   map_option msToTime (timeToMs ''00:05:00'') = Some ''00:05:00''"
proof -
  have v2: "valid_hms ''00:90:75''" by code_simp
  have v3: "valid_hms ''00:05:00''" by code_simp
  have c3: "canonical_hms ''00:05:00''" by code_simp
  have n2: "normal_hms (hms_seconds ''00:90:75'') = ''01:31:15''" by code_simp
  have r2: "map_option msToTime (timeToMs ''00:90:75'') = Some ''01:31:15''"
    using duration_roundtrip [OF v2, THEN conjunct1] by (simp only: n2)
  have r3: "map_option msToTime (timeToMs ''00:05:00'') = Some ''00:05:00''"
    by (rule duration_roundtrip [OF v3, THEN conjunct2, THEN conjunct2, THEN mp, OF c3])
  show ?thesis
    by (intro conjI) (rule v2 c3 r2 r3)+
qed

text \<open>
  Claim C9. \<open>timeToMs\<close> gives 300000 for \<open>00:05:00\<close>, 3723000 for \<open>1:02:03\<close> and 0
  for \<open>bad\<close>. The components are read from the left as hours, minutes and seconds,
  whatever follows a third component being ignored: a text with two components is hours
  and minutes, one component is hours. Every missing component and every non-numeric
  component, that is every component \<open>Number\<close> converts to \<open>NaN\<close>, counts 0; a component
  of up to nine digits counts its value.
\<close>

theorem timeToMs_components:
  assumes "duration_field h" and "duration_field m" and "duration_field s"
  shows "timeToMs ''00:05:00'' = Some 300000 \<and> timeToMs ''1:02:03'' = Some 3723000 \<and>
         timeToMs ''bad'' = Some 0 \<and>
         timeToMs (h @ '':'' @ m @ '':'' @ s) =
           Some ((field_value h * 3600 + field_value m * 60 + field_value s) * 1000) \<and>
         timeToMs (h @ '':'' @ m @ '':'' @ s @ '':'' @ rest) =
           Some ((field_value h * 3600 + field_value m * 60 + field_value s) * 1000) \<and>
         timeToMs (h @ '':'' @ m) = Some ((field_value h * 3600 + field_value m * 60 + 0) * 1000) \<and>
         timeToMs h = Some ((field_value h * 3600 + 0 * 60 + 0) * 1000) \<and>
         (\<not> js_numeric h \<longrightarrow> Number h = NaN \<and> field_value h = 0) \<and>
         (list_all is_digit h \<longrightarrow> field_value h = int (dec_val h))"
proof -
  note f = assms
  from f have nc: "CHR '':'' \<notin> set h" "CHR '':'' \<notin> set m" "CHR '':'' \<notin> set s"
    by (simp_all add: duration_field_def)
  note b = field_Number(2,3) [OF f(1)] field_Number(2,3) [OF f(2)] field_Number(2,3) [OF f(3)]
  have e1: "timeToMs ''00:05:00'' = Some 300000" by code_simp
  have e2: "timeToMs ''1:02:03'' = Some 3723000" by code_simp
  have e3: "timeToMs ''bad'' = Some 0" by code_simp
  have ph: "\<And>ps. ps \<noteq> [] \<Longrightarrow> hd ps = h \<Longrightarrow>
      part_or_0 (map Number ps) 0 = Some (field_value h)"
  proof -
    fix ps :: "string list" assume "ps \<noteq> []" "hd ps = h"
    then have "0 < length ps" "duration_field (ps ! 0)" using f(1) by (simp_all add: hd_conv_nth)
    from part_field [OF this] \<open>ps \<noteq> []\<close> \<open>hd ps = h\<close> show
      "part_or_0 (map Number ps) 0 = Some (field_value h)" by (simp add: hd_conv_nth)
  qed
  have pm: "\<And>a ps. part_or_0 (map Number (a # m # ps)) 1 = Some (field_value m)"
    using part_field [of 1 "_ # m # _"] f(2) by simp
  have ps: "\<And>a b ps. part_or_0 (map Number (a # b # s # ps)) 2 = Some (field_value s)"
    using part_field [of 2 "_ # _ # s # _"] f(3) by simp
  have sp3: "js_split (CHR '':'') (h @ '':'' @ m @ '':'' @ s) = [h, m, s]"
    using nc by (simp add: js_split_append js_split_no_sep)
  have g3: "timeToMs (h @ '':'' @ m @ '':'' @ s) =
      Some ((field_value h * 3600 + field_value m * 60 + field_value s) * 1000)"
    by (rule timeToMs_fields [OF sp3 ph pm ps b]) simp_all
  obtain x xs where rest: "js_split (CHR '':'') rest = x # xs"
    using js_split_nonempty [of "CHR '':''" rest] by (cases "js_split (CHR '':'') rest") auto
  have sp4: "js_split (CHR '':'') (h @ '':'' @ m @ '':'' @ s @ '':'' @ rest) = h # m # s # x # xs"
    using nc by (simp add: js_split_append rest)
  have g4: "timeToMs (h @ '':'' @ m @ '':'' @ s @ '':'' @ rest) =
      Some ((field_value h * 3600 + field_value m * 60 + field_value s) * 1000)"
    by (rule timeToMs_fields [OF sp4 ph pm ps b]) simp_all
  have sp2: "js_split (CHR '':'') (h @ '':'' @ m) = [h, m]"
    using nc by (simp add: js_split_append js_split_no_sep)
  have z2: "part_or_0 (map Number [h, m]) 2 = Some 0" by (simp add: part_or_0_def)
  have g2: "timeToMs (h @ '':'' @ m) =
      Some ((field_value h * 3600 + field_value m * 60 + 0) * 1000)"
    by (rule timeToMs_fields [OF sp2 ph pm z2 b(1-4)]) simp_all
  have sp1: "js_split (CHR '':'') h = [h]"
    using nc by (simp add: js_split_no_sep)
  have z1: "part_or_0 (map Number [h]) 1 = Some 0" "part_or_0 (map Number [h]) 2 = Some 0"
    by (simp_all add: part_or_0_def)
  have g1: "timeToMs h = Some ((field_value h * 3600 + 0 * 60 + 0) * 1000)"
    by (rule timeToMs_fields [OF sp1 ph z1 b(1,2)]) simp_all
  have nn: "\<not> js_numeric h \<longrightarrow> Number h = NaN \<and> field_value h = 0"
    by (simp add: Number_non_numeric field_value_def)
  have dg: "list_all is_digit h \<longrightarrow> field_value h = int (dec_val h)"
    by (simp add: digits_field_value)
  show ?thesis
    by (intro conjI) (rule e1 e2 e3 g3 g4 g2 g1 nn dg)+
qed

theorem timeToMs_components_witness:
  "duration_field ''2'' \<and> duration_field ''1.5x'' \<and> duration_field ''30'' \<and>
   \<not> js_numeric ''1.5x'' \<and>
   timeToMs (''2'' @ '':'' @ ''1.5x'' @ '':'' @ ''30'') = Some 7230000 \<and>
   timeToMs (''2'' @ '':'' @ ''1.5x'') = Some 7200000 \<and>
   timeToMs ''bad'' = Some 0"
proof -
  have d: "duration_field ''2''" "duration_field ''1.5x''" "duration_field ''30''"
    by code_simp+
  have n: "\<not> js_numeric ''1.5x''" by code_simp
  have v: "field_value ''2'' = 2" "field_value ''1.5x'' = 0" "field_value ''30'' = 30"
    by code_simp+
  note th = timeToMs_components [OF d, of "[]"]
  from th have "timeToMs (''2'' @ '':'' @ ''1.5x'' @ '':'' @ ''30'') =
      Some ((field_value ''2'' * 3600 + field_value ''1.5x'' * 60 + field_value ''30'') * 1000)"
    by blast
  then have a: "timeToMs (''2'' @ '':'' @ ''1.5x'' @ '':'' @ ''30'') = Some 7230000"
    by (simp only: v) simp
  from th have "timeToMs (''2'' @ '':'' @ ''1.5x'') =
      Some ((field_value ''2'' * 3600 + field_value ''1.5x'' * 60 + 0) * 1000)"
    by blast
  then have b: "timeToMs (''2'' @ '':'' @ ''1.5x'') = Some 7200000"
    by (simp only: v) simp
  from th have c: "timeToMs ''bad'' = Some 0" by blast
  from d n a b c show ?thesis by (intro conjI)
qed


section \<open>Properties of the timer engine\<close>

lemmas env_defs = emit_def clearInterval_def setInterval_def saveTimerState_def
  clearTimerState_def Date_now_def after_Date_now_def

lemma timerTick_inactive: "\<not> truthy (activeGroup s) \<Longrightarrow> timerTick s = (Returned (), s)"
  by (cases "activeGroup s") (simp_all add: timerTick_def)

lemma timerTick_paused: "isPaused s \<Longrightarrow> timerTick s = (Returned (), s)"
  by (cases "activeGroup s") (simp_all add: timerTick_def)

lemma fire_inactive: "\<not> truthy (activeGroup s) \<Longrightarrow> fire h s = s"
  by (simp add: fire_def timerTick_inactive)

lemma fire_paused: "isPaused s \<Longrightarrow> fire h s = s"
  by (simp add: fire_def timerTick_paused)

lemma run_inactive: "\<not> truthy (activeGroup s) \<Longrightarrow> run hs s = s"
  by (induction hs) (simp_all add: run_def fire_inactive)

lemma run_paused: "isPaused s \<Longrightarrow> run hs s = s"
  by (induction hs) (simp_all add: run_def fire_paused)

lemma stopTimer_fields:
  "stored (stopTimer f s) = None"
  "activeGroup (stopTimer f s) = Null"
  "currentTaskIndex (stopTimer f s) = 0"
  "isPaused (stopTimer f s) = False"
  "timerInterval (stopTimer f s) = timerInterval s"
  "live (stopTimer f s) = (case timerInterval s of None \<Rightarrow> live s | Some h \<Rightarrow> removeAll h (live s))"
  "trace (stopTimer f s) =
     trace s @ [ClearInterval (timerInterval s), ReleaseWakeLock, ClearTimerState] @
     (if activeGroup s \<noteq> Null then [HandleRoutineComplete f] else [])"
  by (simp_all add: stopTimer_def env_defs Let_def)

text \<open>
  Claim C4. In every state, \<open>stopTimer\<close> removes the stored checkpoint, leaves no active
  group and unregisters the interval the engine holds; it cancels the interval first and
  clears the stored checkpoint after it. In the state it returns a tick changes nothing,
  and so does any run of the host's timer loop, whichever handles it fires: no later
  tick emits a notification or writes a checkpoint.
\<close>

theorem stopTimer_no_later_tick:
  "stored (stopTimer f s) = None \<and>
   activeGroup (stopTimer f s) = Null \<and>
   live (stopTimer f s) =
     (case timerInterval s of None \<Rightarrow> live s | Some h \<Rightarrow> removeAll h (live s)) \<and>
   take (length (trace s) + 3) (trace (stopTimer f s)) =
     trace s @ [ClearInterval (timerInterval s), ReleaseWakeLock, ClearTimerState] \<and>
   timerTick (stopTimer f s) = (Returned (), stopTimer f s) \<and>
   run hs (stopTimer f s) = stopTimer f s"
  by (simp add: stopTimer_fields timerTick_inactive run_inactive)

text \<open>
  Claim C2. For a checkpoint that is not paused and whose group and task index resolve,
  \<open>recoverTimer\<close> succeeds, sets the remaining time to the checkpoint's remaining time
  minus the time since its last tick, not below 0, derives \<open>startTime\<close> from it and
  registers a new interval. With 10000 ms remaining and a last tick 4000 ms before the
  recovery, 6000 ms remain.
\<close>

theorem recoverTimer_deducts_elapsed:
  assumes "getGroupById (groupId cp) s = Group g"
    and "js_nth (tasks g) (taskIndex cp) = Some t"
    and "\<not> paused cp"
  shows "fst (recoverTimer cp s) = True \<and>
         remainingTimeMs (snd (recoverTimer cp s)) =
           max 0 (remaining cp - (Date_now s - lastTick cp)) \<and>
         startTime (snd (recoverTimer cp s)) =
           clock s (Suc (reads s)) - (taskDuration cp - remainingTimeMs (snd (recoverTimer cp s))) \<and>
         timerInterval (snd (recoverTimer cp s)) = Some (nextHandle s) \<and>
         nextHandle s \<in> set (live (snd (recoverTimer cp s))) \<and>
         \<not> isPaused (snd (recoverTimer cp s)) \<and>
         activeGroup (snd (recoverTimer cp s)) = Group g \<and>
         int (currentTaskIndex (snd (recoverTimer cp s))) = taskIndex cp \<and>
         taskDurationMs (snd (recoverTimer cp s)) = taskDuration cp \<and>
         (remaining cp = 10000 \<and> Date_now s = lastTick cp + 4000 \<longrightarrow>
            remainingTimeMs (snd (recoverTimer cp s)) = 6000)"
  using assms
  by (auto simp add: recoverTimer_def env_defs Let_def js_nth_def split: if_splits)


lemma stopTimer_trace_prefix: "\<exists>rest. trace (stopTimer f s) = trace s @ rest"
  by (simp add: stopTimer_fields)

lemma processTask_trace_prefix: "\<exists>rest. trace (processTask s) = trace s @ rest"
proof (cases "activeGroup s")
  case (Group g)
  then show ?thesis
    by (cases "length (tasks g) \<le> currentTaskIndex s")
      (simp_all add: processTask_def stopTimer_fields env_defs Let_def)
qed (simp_all add: processTask_def stopTimer_fields)

lemma timerTick_trace_prefix:
  assumes "activeGroup s = Group g" and "\<not> isPaused s"
  shows "\<exists>rest. trace (snd (timerTick s)) =
           trace s @
           [UpdateTimerTime (max 0 (taskDurationMs s - (Date_now s - startTime s))) (taskDurationMs s),
            SaveTimerState
              \<lparr>groupId = group_id g, taskIndex = int (currentTaskIndex s), paused = False,
               remaining = max 0 (taskDurationMs s - (Date_now s - startTime s)),
               taskDuration = taskDurationMs s, lastTick = clock s (Suc (reads s))\<rparr>] @ rest"
proof (cases "max 0 (taskDurationMs s - (Date_now s - startTime s)) = 0")
  case False
  with assms show ?thesis
    by (auto simp add: timerTick_def env_defs Let_def)
next
  case True
  show ?thesis
  proof (cases "js_nth (tasks g) (int (currentTaskIndex s))")
    case None
    with True assms show ?thesis
      by (simp add: timerTick_def env_defs Let_def)
  next
    case (Some t)
    let ?s6 = "snd (timerTick s)"
    obtain s6 where s6: "snd (timerTick s) = processTask s6"
      and tr: "\<exists>mid. trace s6 = trace s @
           [UpdateTimerTime (max 0 (taskDurationMs s - (Date_now s - startTime s))) (taskDurationMs s),
            SaveTimerState
              \<lparr>groupId = group_id g, taskIndex = int (currentTaskIndex s), paused = False,
               remaining = max 0 (taskDurationMs s - (Date_now s - startTime s)),
               taskDuration = taskDurationMs s, lastTick = clock s (Suc (reads s))\<rparr>] @ mid"
      using True assms Some
      by (simp add: timerTick_def env_defs Let_def)
    from processTask_trace_prefix [of s6] tr s6 show ?thesis
      by auto
  qed
qed

lemma togglePause_remaining: "remainingTimeMs (snd (togglePause q)) = remainingTimeMs q"
  by (cases "activeGroup q"; cases "isPaused q")
    (simp_all add: togglePause_def env_defs Let_def)

text \<open>
  Claim C1. In a running session \<open>s\<close>, a tick computes the remaining time as
  \<open>max 0 (taskDurationMs - (now - startTime))\<close>: this value goes to the display and into
  the checkpoint, it stays in \<open>remainingTimeMs\<close> unless it is 0, and the tick does not
  depend on the previous value of \<open>remainingTimeMs\<close>. Resuming a paused session \<open>p\<close>
  sets \<open>startTime\<close> to \<open>now - (taskDurationMs - remainingTimeMs)\<close>, keeps
  \<open>remainingTimeMs\<close> and registers the interval. Hence after a pause, any ticks of the
  host, any delay \<open>d\<close> and the resume, \<open>remainingTimeMs\<close> is what it was at the pause,
  and the tick formula then counts only the time since the resume.
\<close>

theorem drift_free_tick_and_resume:
  assumes "activeGroup s = Group g" and "\<not> isPaused s"
    and "activeGroup p = Group g'" and "isPaused p"
  shows "take (length (trace s) + 2) (trace (snd (timerTick s))) =
           trace s @
           [UpdateTimerTime (max 0 (taskDurationMs s - (Date_now s - startTime s))) (taskDurationMs s),
            SaveTimerState
              \<lparr>groupId = group_id g, taskIndex = int (currentTaskIndex s), paused = False,
               remaining = max 0 (taskDurationMs s - (Date_now s - startTime s)),
               taskDuration = taskDurationMs s, lastTick = clock s (Suc (reads s))\<rparr>] \<and>
         (max 0 (taskDurationMs s - (Date_now s - startTime s)) \<noteq> 0 \<longrightarrow>
            remainingTimeMs (snd (timerTick s)) =
              max 0 (taskDurationMs s - (Date_now s - startTime s))) \<and>
         timerTick (s\<lparr>remainingTimeMs := x\<rparr>) = timerTick s \<and>
         fst (togglePause p) = Returned False \<and>
         startTime (snd (togglePause p)) = Date_now p - (taskDurationMs p - remainingTimeMs p) \<and>
         remainingTimeMs (snd (togglePause p)) = remainingTimeMs p \<and>
         timerInterval (snd (togglePause p)) = Some (nextHandle p) \<and>
         nextHandle p \<in> set (live (snd (togglePause p))) \<and>
         fst (togglePause s) = Returned True \<and>
         remainingTimeMs (snd (togglePause s)) = remainingTimeMs s \<and>
         remainingTimeMs (snd (togglePause (elapse d (run hs (snd (togglePause s)))))) =
           remainingTimeMs s \<and>
         max 0 (taskDurationMs (snd (togglePause (elapse d p))) -
                (Date_now (snd (togglePause (elapse d p))) - startTime (snd (togglePause (elapse d p))))) =
           max 0 (remainingTimeMs p - (Date_now (snd (togglePause (elapse d p))) - Date_now (elapse d p)))"
proof -
  let ?r = "max 0 (taskDurationMs s - (Date_now s - startTime s))"
  have t1: "take (length (trace s) + 2) (trace (snd (timerTick s))) =
           trace s @
           [UpdateTimerTime ?r (taskDurationMs s),
            SaveTimerState
              \<lparr>groupId = group_id g, taskIndex = int (currentTaskIndex s), paused = False,
               remaining = ?r,
               taskDuration = taskDurationMs s, lastTick = clock s (Suc (reads s))\<rparr>]"
    using timerTick_trace_prefix [OF assms(1,2)] by auto
  have t2: "?r \<noteq> 0 \<longrightarrow> remainingTimeMs (snd (timerTick s)) = ?r"
    using assms(1,2) by (simp add: timerTick_def env_defs Let_def)
  have t3: "timerTick (s\<lparr>remainingTimeMs := x\<rparr>) = timerTick s"
    using assms(1,2) by (simp add: timerTick_def env_defs Let_def)
  have r1: "fst (togglePause p) = Returned False"
    and r2: "startTime (snd (togglePause p)) = Date_now p - (taskDurationMs p - remainingTimeMs p)"
    and r3: "remainingTimeMs (snd (togglePause p)) = remainingTimeMs p"
    and r4: "timerInterval (snd (togglePause p)) = Some (nextHandle p)"
    and r5: "nextHandle p \<in> set (live (snd (togglePause p)))"
    using assms(3,4) by (simp_all add: togglePause_def env_defs Let_def)
  have p1: "fst (togglePause s) = Returned True"
    and p2: "remainingTimeMs (snd (togglePause s)) = remainingTimeMs s"
    and p3: "isPaused (snd (togglePause s))"
    and p4: "activeGroup (snd (togglePause s)) = Group g"
    using assms(1,2) by (simp_all add: togglePause_def env_defs Let_def)
  have el: "\<And>q. remainingTimeMs (snd (togglePause (elapse d q))) = remainingTimeMs q"
    by (simp add: togglePause_remaining elapse_def)
  have p5: "remainingTimeMs (snd (togglePause (elapse d (run hs (snd (togglePause s)))))) =
           remainingTimeMs s"
    by (simp add: run_paused [OF p3] el p2)
  have p6: "max 0 (taskDurationMs (snd (togglePause (elapse d p))) -
                (Date_now (snd (togglePause (elapse d p))) - startTime (snd (togglePause (elapse d p))))) =
           max 0 (remainingTimeMs p - (Date_now (snd (togglePause (elapse d p))) - Date_now (elapse d p)))"
    using assms(3,4) by (simp add: togglePause_def env_defs Let_def elapse_def)
  show ?thesis
    by (intro conjI) (rule t1 t2 t3 r1 r2 r3 r4 r5 p1 p2 p5 p6)+
qed


lemma running_session_eval:
  "activeGroup running_session = Group default_group"
  "\<not> isPaused running_session"
  "remainingTimeMs running_session = 120000"
  by code_simp+

lemma paused_session_eval:
  "activeGroup paused_session = Group default_group"
  "isPaused paused_session"
  "currentTaskIndex paused_session = 1"
  "remainingTimeMs paused_session = 900000"
  "getGroupById ''no-such-group'' paused_session = Undefined"
  by code_simp+

theorem drift_free_tick_and_resume_witness:
  "activeGroup running_session = Group default_group \<and> \<not> isPaused running_session \<and>
   activeGroup paused_session = Group default_group \<and> isPaused paused_session \<and>
   remainingTimeMs (snd (togglePause (elapse 3600000 (run [1, 1] (snd (togglePause running_session)))))) =
     120000 \<and>
   remainingTimeMs (snd (togglePause paused_session)) = 900000"
proof -
  note th = drift_free_tick_and_resume [OF running_session_eval(1,2) paused_session_eval(1,2),
      of _ 3600000 "[1, 1]"]
  from th have "remainingTimeMs (snd (togglePause (elapse 3600000 (run [1, 1] (snd (togglePause running_session)))))) =
     remainingTimeMs running_session"
    by blast
  moreover from th have "remainingTimeMs (snd (togglePause paused_session)) = remainingTimeMs paused_session"
    by blast
  ultimately show ?thesis
    by (simp add: running_session_eval paused_session_eval)
qed

theorem recoverTimer_deducts_elapsed_witness:
  "getGroupById (groupId away_checkpoint) (boot [default_group] (Some away_checkpoint) minute_clock) =
     Group default_group \<and>
   js_nth (tasks default_group) (taskIndex away_checkpoint) =
     Some \<lparr>name = ''Cool-down'', duration = ''00:05:00'', notify = ''end'', icon = []\<rparr> \<and>
   \<not> paused away_checkpoint \<and>
   remaining away_checkpoint = 10000 \<and>
   Date_now (boot [default_group] (Some away_checkpoint) minute_clock) = lastTick away_checkpoint + 4000 \<and>
   remainingTimeMs (snd (recoverTimer away_checkpoint
      (boot [default_group] (Some away_checkpoint) minute_clock))) = 6000"
proof -
  let ?s = "boot [default_group] (Some away_checkpoint) minute_clock"
  have g: "getGroupById (groupId away_checkpoint) ?s = Group default_group"
    by code_simp
  have t: "js_nth (tasks default_group) (taskIndex away_checkpoint) =
     Some \<lparr>name = ''Cool-down'', duration = ''00:05:00'', notify = ''end'', icon = []\<rparr>"
    by code_simp
  have p: "\<not> paused away_checkpoint" by code_simp
  have r: "remaining away_checkpoint = 10000" by code_simp
  have n: "Date_now ?s = lastTick away_checkpoint + 4000" by code_simp
  from recoverTimer_deducts_elapsed [OF g t p] r n
  have "remainingTimeMs (snd (recoverTimer away_checkpoint ?s)) = 6000"
    by blast
  with g t p r n show ?thesis by blast
qed

text \<open>
  Claim C7 (the code does not meet it). Right after loading, with no active session,
  \<open>togglePause\<close> throws a \<open>TypeError\<close> after having set \<open>isPaused\<close>; \<open>skipTask\<close> and
  \<open>timerTick\<close> in the same state return without doing anything.
\<close>

theorem togglePause_idle_throws:
  "fst (togglePause (boot catalog cp clk)) = Threw TypeError \<and>
   isPaused (snd (togglePause (boot catalog cp clk))) \<and>
   skipTask (boot catalog cp clk) = boot catalog cp clk \<and>
   timerTick (boot catalog cp clk) = (Returned (), boot catalog cp clk)"
  by (simp add: togglePause_def skipTask_def timerTick_def boot_def env_defs Let_def)

text \<open>
  Claim C5 (the code does not meet it). Recovering, right after loading, a checkpoint
  whose task index 3 is outside the three tasks of its group returns failure and clears
  the stored checkpoint, but leaves the group in \<open>activeGroup\<close>, whereas a checkpoint of
  a missing group leaves \<open>undefined\<close> there. The engine then takes a session to be
  active: \<open>stopTimer\<close> reports a stopped routine and \<open>skipTask\<close> begins the second
  task and starts polling.
\<close>

theorem recoverTimer_bad_index_keeps_group:
  "js_nth (tasks default_group) (taskIndex stale_checkpoint) = None \<and>
   fst (recoverTimer stale_checkpoint (boot [default_group] (Some stale_checkpoint) minute_clock)) = False \<and>
   stored after_bad_recovery = None \<and>
   live after_bad_recovery = [] \<and>
   activeGroup after_bad_recovery = Group default_group \<and>
   activeGroup (snd (recoverTimer (stale_checkpoint\<lparr>groupId := ''deleted-group''\<rparr>)
      (boot [default_group] (Some stale_checkpoint) minute_clock))) = Undefined \<and>
   last (trace (stopTimer False after_bad_recovery)) = HandleRoutineComplete False \<and>
   currentTaskIndex (skipTask after_bad_recovery) = 1 \<and>
   live (skipTask after_bad_recovery) = [1] \<and>
   SendTaskNotification ''Work Set'' ''start'' \<in> set (trace (skipTask after_bad_recovery))"
  by code_simp

text \<open>
  Claim C6 (the code does not meet it). \<open>startTimer\<close> assigns \<open>activeGroup\<close>,
  \<open>currentTaskIndex\<close> and \<open>isPaused\<close> before it looks at the group. Right after
  loading, a refused start of a group without tasks leaves that group in \<open>activeGroup\<close>,
  and \<open>skipTask\<close> then reports a completed routine. In a session paused at its second
  task, a refused start of an id that is not in the catalog changes the three fields and
  keeps the stored checkpoint; in a running session it leaves no group active while the
  interval stays registered and the checkpoint stored.
\<close>

theorem startTimer_refused_changes_session:
  "activeGroup (boot [empty_group] None minute_clock) = Null \<and>
   activeGroup (startTimer ''group-empty'' (boot [empty_group] None minute_clock)) =
     Group empty_group \<and>
   trace (startTimer ''group-empty'' (boot [empty_group] None minute_clock)) =
     [ConsoleError ''Cannot start an empty group.''] \<and>
   last (trace (skipTask (startTimer ''group-empty'' (boot [empty_group] None minute_clock)))) =
     HandleRoutineComplete True \<and>
   getGroupById ''no-such-group'' paused_session = Undefined \<and>
   activeGroup paused_session = Group default_group \<and>
   activeGroup (startTimer ''no-such-group'' paused_session) = Undefined \<and>
   currentTaskIndex paused_session = 1 \<and>
   currentTaskIndex (startTimer ''no-such-group'' paused_session) = 0 \<and>
   isPaused paused_session \<and>
   \<not> isPaused (startTimer ''no-such-group'' paused_session) \<and>
   stored (startTimer ''no-such-group'' paused_session) = stored paused_session \<and>
   stored paused_session \<noteq> None \<and>
   activeGroup (startTimer ''no-such-group'' running_session) = Undefined \<and>
   live (startTimer ''no-such-group'' running_session) = [1] \<and>
   stored (startTimer ''no-such-group'' running_session) \<noteq> None"
  by code_simp

text \<open>
  Claim C10 (the code does not meet it). Right after loading, \<open>stopTimer\<close> cancels,
  clears and reports nothing. After \<open>startTimer\<close> has refused an id that is not in the
  catalog, or \<open>recoverTimer\<close> a checkpoint of such an id, no session is active: no group
  is active, nothing is polled and no checkpoint is stored. Yet \<open>activeGroup\<close> is then
  \<open>undefined\<close>, not \<open>null\<close>, the test \<open>activeGroup !== null\<close> of \<open>stopTimer\<close> holds,
  and \<open>stopTimer\<close> reports a stopped routine.
\<close>

theorem stopTimer_reports_without_session:
  "trace (stopTimer False (boot [default_group] None minute_clock)) =
     [ClearInterval None, ReleaseWakeLock, ClearTimerState] \<and>
   \<not> truthy (activeGroup (startTimer ''no-such-group'' (boot [default_group] None minute_clock))) \<and>
   live (startTimer ''no-such-group'' (boot [default_group] None minute_clock)) = [] \<and>
   stored (startTimer ''no-such-group'' (boot [default_group] None minute_clock)) = None \<and>
   activeGroup (startTimer ''no-such-group'' (boot [default_group] None minute_clock)) = Undefined \<and>
   trace (stopTimer False (startTimer ''no-such-group'' (boot [default_group] None minute_clock))) =
     [ConsoleError ''Cannot start an empty group.'', ClearInterval None, ReleaseWakeLock,
      ClearTimerState, HandleRoutineComplete False] \<and>
   fst (recoverTimer (stale_checkpoint\<lparr>groupId := ''deleted-group''\<rparr>)
      (boot [default_group] (Some stale_checkpoint) minute_clock)) = False \<and>
   trace (stopTimer False (snd (recoverTimer (stale_checkpoint\<lparr>groupId := ''deleted-group''\<rparr>)
      (boot [default_group] (Some stale_checkpoint) minute_clock)))) =
     [ClearTimerState, ClearInterval None, ReleaseWakeLock, ClearTimerState,
      HandleRoutineComplete False]"
  by code_simp

lemma task_events_append: "task_events (a @ b) = task_events a @ task_events b"
  by (simp add: task_events_def)

lemma task_events_begin: "task_events (begin_events g i) = begin_events g i"
  by (simp add: task_events_def begin_events_def Let_def)

lemma task_events_end: "task_events (end_events g i) = end_events g i"
  by (simp add: task_events_def end_events_def Let_def)

lemma processTask_begin:
  assumes "activeGroup s = Group g" and "currentTaskIndex s < length (tasks g)"
  shows "activeGroup (processTask s) = Group g"
    and "currentTaskIndex (processTask s) = currentTaskIndex s"
    and "\<not> isPaused (processTask s)"
    and "task_events (trace (processTask s)) =
           task_events (trace s) @ begin_events g (currentTaskIndex s)"
  using assms
  by (simp_all add: processTask_def env_defs Let_def task_events_def begin_events_def)

lemma processTask_finish:
  assumes "activeGroup s = Group g" and "length (tasks g) \<le> currentTaskIndex s"
  shows "activeGroup (processTask s) = Null"
    and "task_events (trace (processTask s)) = task_events (trace s)"
    and "last (trace (processTask s)) = HandleRoutineComplete True"
  using assms
  by (simp_all add: processTask_def stopTimer_fields task_events_def)

lemma progress_Suc:
  "progress_events g (Suc i) = progress_events g i @ end_events g i @ begin_events g (Suc i)"
  by (simp add: progress_events_def)

lemma expected_last:
  "length (tasks g) = Suc i \<Longrightarrow> expected_events g = progress_events g i @ end_events g i"
  by (simp add: progress_events_def expected_events_def)


lemma timerTick_completing:
  assumes "activeGroup s = Group g" and "\<not> isPaused s"
    and "currentTaskIndex s < length (tasks g)"
    and "max 0 (taskDurationMs s - (Date_now s - startTime s)) = 0"
  shows "\<exists>s6. snd (timerTick s) = processTask s6 \<and> activeGroup s6 = Group g \<and>
           currentTaskIndex s6 = Suc (currentTaskIndex s) \<and>
           task_events (trace s6) = task_events (trace s) @ end_events g (currentTaskIndex s) \<and>
           nextHandle s6 = nextHandle s \<and> clock s6 = clock s"
  using assms
  apply (simp add: timerTick_def Let_def js_nth_def env_defs split del: if_split)
  apply (rule exI, rule conjI, rule refl)
  apply (simp add: task_events_def end_events_def Let_def env_defs)
  done

lemma timerTick_continuing:
  assumes "activeGroup s = Group g" and "\<not> isPaused s"
    and "max 0 (taskDurationMs s - (Date_now s - startTime s)) \<noteq> 0"
  shows "activeGroup (snd (timerTick s)) = Group g"
    and "\<not> isPaused (snd (timerTick s))"
    and "currentTaskIndex (snd (timerTick s)) = currentTaskIndex s"
    and "task_events (trace (snd (timerTick s))) = task_events (trace s)"
  using assms
  by (auto simp add: timerTick_def Let_def env_defs task_events_def)

lemma routine_inv_tick:
  assumes "routine_inv g base s"
  shows "routine_inv g base (snd (timerTick s))"
proof (cases "activeGroup s = Null")
  case True
  then show ?thesis using assms by (simp add: timerTick_inactive)
next
  case False
  with assms have run: "activeGroup s = Group g" "\<not> isPaused s"
    "currentTaskIndex s < length (tasks g)"
    and ev: "task_events (trace s) = base @ progress_events g (currentTaskIndex s)"
    by (auto simp: routine_inv_def)
  show ?thesis
  proof (cases "max 0 (taskDurationMs s - (Date_now s - startTime s)) = 0")
    case False
    from timerTick_continuing [OF run(1,2) False] run(3) ev show ?thesis
      by (simp add: routine_inv_def)
  next
    case True
    from timerTick_completing [OF run True] obtain s6
      where s6: "snd (timerTick s) = processTask s6" "activeGroup s6 = Group g"
        "currentTaskIndex s6 = Suc (currentTaskIndex s)"
        "task_events (trace s6) = task_events (trace s) @ end_events g (currentTaskIndex s)"
      by blast
    show ?thesis
    proof (cases "Suc (currentTaskIndex s) < length (tasks g)")
      case True
      with s6 have lt: "currentTaskIndex s6 < length (tasks g)" by simp
      from processTask_begin [OF s6(2) lt] s6 ev True show ?thesis
        by (simp add: routine_inv_def progress_Suc)
    next
      case False
      with run(3) have len: "length (tasks g) = Suc (currentTaskIndex s)" by simp
      with s6 have ge: "length (tasks g) \<le> currentTaskIndex s6" by simp
      from processTask_finish [OF s6(2) ge] s6 ev show ?thesis
        by (simp add: routine_inv_def expected_last [OF len])
    qed
  qed
qed

lemma routine_inv_run:
  "routine_inv g base s \<Longrightarrow> routine_inv g base (run hs s)"
proof (induction hs arbitrary: s)
  case Nil
  then show ?case by (simp add: run_def)
next
  case (Cons h hs)
  from Cons.prems have "routine_inv g base (fire h s)"
    by (simp add: fire_def routine_inv_tick)
  from Cons.IH [OF this] show ?case by (simp add: run_def)
qed

lemma routine_inv_start:
  assumes "getGroupById gid s0 = Group g" and "tasks g \<noteq> []"
  shows "routine_inv g (task_events (trace s0)) (startTimer gid s0)"
proof -
  define s1 where "s1 = emit RequestWakeLock
      (s0\<lparr>activeGroup := Group g, currentTaskIndex := 0, isPaused := False\<rparr>)"
  from assms have st: "startTimer gid s0 = processTask s1"
    by (simp add: startTimer_def Let_def s1_def)
  have a: "activeGroup s1 = Group g" and i: "currentTaskIndex s1 = 0"
    and tr: "task_events (trace s1) = task_events (trace s0)"
    by (simp_all add: s1_def emit_def task_events_def)
  from assms i have lt: "currentTaskIndex s1 < length (tasks g)" by simp
  have p0: "progress_events g 0 = begin_events g 0" by (simp add: progress_events_def)
  from processTask_begin [OF a lt] assms(2) show ?thesis
    by (simp add: st routine_inv_def i tr p0)
qed


lemma shown_numbers_append: "shown_numbers (a @ b) = shown_numbers a @ shown_numbers b"
  by (induction a rule: shown_numbers.induct) simp_all

lemma notified_append: "notified p (a @ b) = notified p a @ notified p b"
  by (induction p a rule: notified.induct) simp_all

lemma shown_numbers_task: "shown_numbers (begin_events g j @ end_events g j) = [Suc j]"
  by (simp add: begin_events_def end_events_def Let_def)

lemma shown_numbers_upto:
  "shown_numbers (concat (map (\<lambda>j. begin_events g j @ end_events g j) [0..<n])) = [1..<Suc n]"
proof (induction n)
  case 0
  show ?case by simp
next
  case (Suc n)
  have "[1..<Suc (Suc n)] = [1..<Suc n] @ [Suc n]" by simp
  with Suc show ?case
    by (simp only: upt_Suc_append [OF le0] map_append concat_append shown_numbers_append
        list.map concat.simps append_Nil2 shown_numbers_task [unfolded shown_numbers_append])
qed

lemma notified_start_task:
  "notified ''start'' (begin_events g j @ end_events g j) =
     map name (filter (\<lambda>t. notify t = ''start'' \<or> notify t = ''both'') [tasks g ! j])"
  by (simp add: begin_events_def end_events_def Let_def)

lemma notified_end_task:
  "notified ''end'' (begin_events g j @ end_events g j) =
     map name (filter (\<lambda>t. notify t = ''end'' \<or> notify t = ''both'') [tasks g ! j])"
  by (simp add: begin_events_def end_events_def Let_def)

lemma notified_start_upto:
  "n \<le> length (tasks g) \<Longrightarrow>
   notified ''start'' (concat (map (\<lambda>j. begin_events g j @ end_events g j) [0..<n])) =
     map name (filter (\<lambda>t. notify t = ''start'' \<or> notify t = ''both'') (take n (tasks g)))"
proof (induction n)
  case 0
  show ?case by simp
next
  case (Suc n)
  then have lt: "n < length (tasks g)" and le: "n \<le> length (tasks g)" by simp_all
  show ?case
    by (simp only: upt_Suc_append [OF le0] map_append concat_append notified_append
        list.map concat.simps append_Nil2 notified_start_task [unfolded notified_append] Suc.IH [OF le]
        take_Suc_conv_app_nth [OF lt] filter_append)
qed

lemma notified_end_upto:
  "n \<le> length (tasks g) \<Longrightarrow>
   notified ''end'' (concat (map (\<lambda>j. begin_events g j @ end_events g j) [0..<n])) =
     map name (filter (\<lambda>t. notify t = ''end'' \<or> notify t = ''both'') (take n (tasks g)))"
proof (induction n)
  case 0
  show ?case by simp
next
  case (Suc n)
  then have lt: "n < length (tasks g)" and le: "n \<le> length (tasks g)" by simp_all
  show ?case
    by (simp only: upt_Suc_append [OF le0] map_append concat_append notified_append
        list.map concat.simps append_Nil2 notified_end_task [unfolded notified_append] Suc.IH [OF le]
        take_Suc_conv_app_nth [OF lt] filter_append)
qed

text \<open>
  Claim C3. Start a group that has at least one task and let the host fire ticks, in any
  order of handles and at any clock readings. If the routine has come to its natural end,
  the tasks shown and the notifications sent since the start are exactly, in this order
  and for the tasks 0, 1, ... in turn: the task shown with its number, its start
  notification if its policy is \<open>start\<close> or \<open>both\<close>, its end notification if its policy
  is \<open>end\<close> or \<open>both\<close>. So the tasks are shown under the numbers 1 to N once each, the
  start notifications are one for each task with policy \<open>start\<close> or \<open>both\<close>, the end
  notifications one for each task with policy \<open>end\<close> or \<open>both\<close>, the end notification
  of a task comes before the next task is shown, and the run ends with the report of a
  finished routine.
\<close>

theorem routine_runs_tasks_in_order:
  assumes "getGroupById gid s0 = Group g" and "tasks g \<noteq> []"
    and "activeGroup (run hs (startTimer gid s0)) = Null"
  shows "task_events (trace (run hs (startTimer gid s0))) =
           task_events (trace s0) @ expected_events g \<and>
         shown_numbers (expected_events g) = [1..<Suc (length (tasks g))] \<and>
         notified ''start'' (expected_events g) =
           map name (filter (\<lambda>t. notify t = ''start'' \<or> notify t = ''both'') (tasks g)) \<and>
         notified ''end'' (expected_events g) =
           map name (filter (\<lambda>t. notify t = ''end'' \<or> notify t = ''both'') (tasks g)) \<and>
         last (trace (run hs (startTimer gid s0))) = HandleRoutineComplete True"
proof -
  have "routine_inv g (task_events (trace s0)) (run hs (startTimer gid s0))"
    by (rule routine_inv_run [OF routine_inv_start [OF assms(1,2)]])
  with assms(3) have ev: "task_events (trace (run hs (startTimer gid s0))) =
           task_events (trace s0) @ expected_events g"
    and la: "last (trace (run hs (startTimer gid s0))) = HandleRoutineComplete True"
    by (simp_all add: routine_inv_def)
  have sh: "shown_numbers (expected_events g) = [1..<Suc (length (tasks g))]"
    unfolding expected_events_def by (rule shown_numbers_upto)
  have ns: "notified ''start'' (expected_events g) =
           map name (filter (\<lambda>t. notify t = ''start'' \<or> notify t = ''both'') (tasks g))"
    unfolding expected_events_def using notified_start_upto [of "length (tasks g)" g] by simp
  have ne: "notified ''end'' (expected_events g) =
           map name (filter (\<lambda>t. notify t = ''end'' \<or> notify t = ''both'') (tasks g))"
    unfolding expected_events_def using notified_end_upto [of "length (tasks g)" g] by simp
  from ev sh ns ne la show ?thesis by (intro conjI)
qed

theorem routine_runs_tasks_in_order_witness:
  "getGroupById ''group-default'' (boot [default_group] None hour_clock) = Group default_group \<and>
   tasks default_group \<noteq> [] \<and>
   activeGroup (run [1, 2, 3] (startTimer ''group-default'' (boot [default_group] None hour_clock))) = Null \<and>
   task_events (trace (run [1, 2, 3] (startTimer ''group-default'' (boot [default_group] None hour_clock)))) =
     [UpdateTimerDisplay (tasks default_group ! 0) ''Quick Demo Routine'' 1,
      SendTaskNotification ''Warm-up'' ''end'',
      UpdateTimerDisplay (tasks default_group ! 1) ''Quick Demo Routine'' 2,
      SendTaskNotification ''Work Set'' ''start'',
      UpdateTimerDisplay (tasks default_group ! 2) ''Quick Demo Routine'' 3,
      SendTaskNotification ''Cool-down'' ''end'']"
proof -
  let ?s0 = "boot [default_group] None hour_clock"
  have g: "getGroupById ''group-default'' ?s0 = Group default_group" by code_simp
  have n: "tasks default_group \<noteq> []" by code_simp
  have c: "activeGroup (run [1, 2, 3] (startTimer ''group-default'' ?s0)) = Null" by code_simp
  have b: "task_events (trace ?s0) = []" by code_simp
  have e: "expected_events default_group =
     [UpdateTimerDisplay (tasks default_group ! 0) ''Quick Demo Routine'' 1,
      SendTaskNotification ''Warm-up'' ''end'',
      UpdateTimerDisplay (tasks default_group ! 1) ''Quick Demo Routine'' 2,
      SendTaskNotification ''Work Set'' ''start'',
      UpdateTimerDisplay (tasks default_group ! 2) ''Quick Demo Routine'' 3,
      SendTaskNotification ''Cool-down'' ''end'']" by code_simp
  from routine_runs_tasks_in_order [OF g n c]
  have "task_events (trace (run [1, 2, 3] (startTimer ''group-default'' ?s0))) =
           task_events (trace ?s0) @ expected_events default_group"
    by (rule conjunct1)
  then have "task_events (trace (run [1, 2, 3] (startTimer ''group-default'' ?s0))) =
     [UpdateTimerDisplay (tasks default_group ! 0) ''Quick Demo Routine'' 1,
      SendTaskNotification ''Warm-up'' ''end'',
      UpdateTimerDisplay (tasks default_group ! 1) ''Quick Demo Routine'' 2,
      SendTaskNotification ''Work Set'' ''start'',
      UpdateTimerDisplay (tasks default_group ! 2) ''Quick Demo Routine'' 3,
      SendTaskNotification ''Cool-down'' ''end'']"
    by (simp only: b e append_Nil)
  with g n c show ?thesis by (intro conjI)
qed


text \<open>The natural end is reached: when the clock advances by at least the longest task
  between any two readings, firing the engine's interval once for each task ends the
  routine.\<close>

lemma processTask_due:
  assumes "activeGroup s = Group g" and "currentTaskIndex s < length (tasks g)"
    and "\<forall>t \<in> set (tasks g). \<exists>d \<le> D. timeToMs (duration t) = Some d"
  shows "due g (clock s) D (nextHandle s) (processTask s)"
proof -
  from assms(2) have "tasks g ! currentTaskIndex s \<in> set (tasks g)" by simp
  with assms(3) obtain d
    where "d \<le> D" "timeToMs (duration (tasks g ! currentTaskIndex s)) = Some d"
    by blast
  with assms(1,2) show ?thesis
    by (simp add: due_def processTask_def env_defs Let_def)
qed

lemma due_fire:
  assumes d: "due g clk D h s"
    and dur: "\<forall>t \<in> set (tasks g). \<exists>d \<le> D. timeToMs (duration t) = Some d"
    and clk: "\<forall>k. clk k + D \<le> clk (Suc k)"
  shows "if Suc (currentTaskIndex s) < length (tasks g)
         then due g clk D (Suc h) (fire h s) \<and>
              currentTaskIndex (fire h s) = Suc (currentTaskIndex s)
         else activeGroup (fire h s) = Null"
proof -
  from d have run: "activeGroup s = Group g" "\<not> isPaused s"
    "currentTaskIndex s < length (tasks g)"
    and h: "h \<in> set (live s)" "nextHandle s = Suc h" "clock s = clk"
    and r: "0 < reads s" "startTime s = clk (reads s - 1)" "taskDurationMs s \<le> D"
    by (simp_all add: due_def)
  from r(1) obtain k where k: "reads s = Suc k" by (cases "reads s") simp_all
  from clk have "clk k + D \<le> clk (Suc k)" by simp
  with r k h(3) have "max 0 (taskDurationMs s - (Date_now s - startTime s)) = 0"
    by (simp add: Date_now_def)
  from timerTick_completing [OF run this] obtain s6
    where s6: "snd (timerTick s) = processTask s6" "activeGroup s6 = Group g"
      "currentTaskIndex s6 = Suc (currentTaskIndex s)"
      "nextHandle s6 = nextHandle s" "clock s6 = clock s"
    by blast
  from h(1) s6(1) have f: "fire h s = processTask s6" by (simp add: fire_def)
  show ?thesis
  proof (cases "Suc (currentTaskIndex s) < length (tasks g)")
    case True
    with s6 have lt: "currentTaskIndex s6 < length (tasks g)" by simp
    from processTask_due [OF s6(2) lt dur] processTask_begin(2) [OF s6(2) lt] True s6 h
    show ?thesis by (simp add: f)
  next
    case False
    with s6 have ge: "length (tasks g) \<le> currentTaskIndex s6" by simp
    from processTask_finish(1) [OF s6(2) ge] False show ?thesis by (simp add: f)
  qed
qed

lemma due_run:
  assumes dur: "\<forall>t \<in> set (tasks g). \<exists>d \<le> D. timeToMs (duration t) = Some d"
    and clk: "\<forall>k. clk k + D \<le> clk (Suc k)"
  shows "due g clk D h s \<Longrightarrow> n = length (tasks g) - currentTaskIndex s \<Longrightarrow>
         activeGroup (run [h..<h + n] s) = Null"
proof (induction n arbitrary: h s)
  case 0
  then show ?case by (simp add: due_def)
next
  case (Suc n)
  have sp: "[h..<h + Suc n] = h # [Suc h..<Suc h + n]"
    by (simp add: upt_conv_Cons)
  have r: "run [h..<h + Suc n] s = run [Suc h..<Suc h + n] (fire h s)"
    by (simp only: sp run_def foldl.simps)
  show ?case
  proof (cases "Suc (currentTaskIndex s) < length (tasks g)")
    case True
    with due_fire [OF Suc.prems(1) dur clk]
    have d: "due g clk D (Suc h) (fire h s)"
      and i: "currentTaskIndex (fire h s) = Suc (currentTaskIndex s)" by simp_all
    from Suc.prems(2) i have "n = length (tasks g) - currentTaskIndex (fire h s)" by simp
    from Suc.IH [OF d this] show ?thesis by (simp only: r)
  next
    case False
    with due_fire [OF Suc.prems(1) dur clk]
    have "activeGroup (fire h s) = Null" by simp
    then have "run [Suc h..<Suc h + n] (fire h s) = fire h s" by (simp add: run_inactive)
    with \<open>activeGroup (fire h s) = Null\<close> show ?thesis by (simp only: r)
  qed
qed

lemma routine_completes:
  assumes g: "getGroupById gid s0 = Group g" and ne: "tasks g \<noteq> []"
    and dur: "\<forall>t \<in> set (tasks g). \<exists>d \<le> D. timeToMs (duration t) = Some d"
    and clk: "\<forall>k. clock s0 k + D \<le> clock s0 (Suc k)"
  shows "activeGroup (run [nextHandle s0..<nextHandle s0 + length (tasks g)] (startTimer gid s0)) = Null"
proof -
  define s1 where "s1 = emit RequestWakeLock
      (s0\<lparr>activeGroup := Group g, currentTaskIndex := 0, isPaused := False\<rparr>)"
  from g ne have st: "startTimer gid s0 = processTask s1"
    by (simp add: startTimer_def Let_def s1_def)
  have a: "activeGroup s1 = Group g" and i: "currentTaskIndex s1 = 0"
    and c: "clock s1 = clock s0" and n: "nextHandle s1 = nextHandle s0"
    by (simp_all add: s1_def emit_def)
  from ne i have lt: "currentTaskIndex s1 < length (tasks g)" by simp
  from processTask_due [OF a lt dur] c n
  have d: "due g (clock s0) D (nextHandle s0) (processTask s1)" by simp
  from processTask_begin(2) [OF a lt] i
  have "length (tasks g) = length (tasks g) - currentTaskIndex (processTask s1)" by simp
  from due_run [OF dur clk d this] show ?thesis by (simp only: st)
qed


end

